theory Spec2Isabelle
  imports Main "HOL-Library.Product_Lexorder" "HOL-Library.Multiset"
begin

section \<open>Data model\<close>

text \<open>
  The bookmark controllers of the repository
  (\<^verbatim>\<open>src/controllers/PublicBookmark.controller.ts\<close>,
  \<^verbatim>\<open>src/controllers/UserBookmark.controller.ts\<close>), the session lookup
  (\<^verbatim>\<open>src/lib/auth/index.ts\<close>) and the sort reconciler of the bookmark list page
  are embedded as HOL functions over an explicit store. A table is the list of its rows
  in storage order, a thrown \<^verbatim>\<open>Error\<close> is the left injection of a sum, and the clock
  is an argument: the one reading \<open>now\<close> of \<^verbatim>\<open>new Date()\<close> in \<^verbatim>\<open>insert\<close> and
  \<^verbatim>\<open>update\<close>, and in the export the sequence \<open>clock\<close> of the readings of
  \<^verbatim>\<open>Date.now()\<close>, all in milliseconds.
\<close>

type_synonym BookmarkId = int
type_synonym TagId = int
type_synonym UserId = string

text \<open>
  The errors the embedded code raises. The source messages are Chinese text; each
  constructor stands for one \<^verbatim>\<open>throw new Error(...)\<close> site:
  \<^item> \<open>BookmarkExists\<close>: the duplicate check of the public \<^verbatim>\<open>insert\<close>;
  \<^item> \<open>SameUrlOrNameExists\<close>: the duplicate check of the user \<^verbatim>\<open>insert\<close>;
  \<^item> \<open>GetAuthedUserIdFailed\<close>: no session, or a session without a user id;
  \<^item> \<open>LoginExpired\<close>: the session's user is not in the users table;
  \<^item> \<open>EmptyValues\<close>: the query builder's
    \<^verbatim>\<open>values() must be called with at least one value\<close>.
\<close>

datatype error =
    BookmarkExists
  | SameUrlOrNameExists
  | GetAuthedUserIdFailed
  | LoginExpired
  | EmptyValues

text \<open>
  A bookmark row. \<open>id'\<close> is the column \<^verbatim>\<open>id\<close>; a nullable column is an option.
  Timestamps are \<^verbatim>\<open>Date\<close> values, held as milliseconds since the epoch. Columns that
  no embedded operation reads (icon, description, isPinned) are left out.
\<close>

record Bookmark =
  id' :: BookmarkId
  name :: string
  url :: string
  pinyin :: string
  sortOrder :: "int option"
  createdAt :: "int option"
  updatedAt :: "int option"

record UserBookmark = Bookmark +
  userId :: UserId

record Tag =
  tag_id :: TagId
  tag_name :: string

record UserTag = Tag +
  tag_userId :: UserId

text \<open>A row of the join table: the pair \<^verbatim>\<open>(bId, tId)\<close>.\<close>

record BookmarkToTag =
  bId :: BookmarkId
  tId :: TagId

text \<open>
  The public store and the user store. \<open>publicTags\<close> and \<open>userTags\<close> hold the tags in
  the order the tag controllers' \<^verbatim>\<open>getAll\<close> return them; the \<open>_seq\<close> fields are the
  next value of the \<^verbatim>\<open>id\<close> sequences.
\<close>

record PublicDb =
  publicBookmarks :: "Bookmark list"
  publicBookmarkToTag :: "BookmarkToTag list"
  publicTags :: "Tag list"
  publicBookmarks_seq :: BookmarkId

record UserDb =
  userBookmarks :: "UserBookmark list"
  userBookmarkToTag :: "BookmarkToTag list"
  userTags :: "UserTag list"
  users :: "UserId list"
  userBookmarks_seq :: BookmarkId

text \<open>The session \<^verbatim>\<open>auth()\<close> returns: \<^verbatim>\<open>session.user.id\<close> may be missing.\<close>

record Session =
  session_user_id :: "UserId option"

section \<open>Store operations\<close>

text \<open>
  \<^verbatim>\<open>db.insert(t).values(rows).onConflictDoNothing()\<close>: a row whose key is already in
  the table is skipped (the key of the join table is the whole row). The builder's
  \<^verbatim>\<open>values\<close> raises on an empty list; \<^verbatim>\<open>UserBookmark.controller.ts\<close> guards its
  call with \<^verbatim>\<open>tagIds.length &&\<close> for that reason.
\<close>

definition onConflictDoNothing :: "'a list \<Rightarrow> 'a list \<Rightarrow> 'a list" where
  "onConflictDoNothing tbl rows = fold (\<lambda>r t. if r \<in> set t then t else t @ [r]) rows tbl"

definition insert_values_onConflictDoNothing :: "'a list \<Rightarrow> 'a list \<Rightarrow> error + 'a list" where
  "insert_values_onConflictDoNothing tbl rows =
     (if rows = [] then Inl EmptyValues else Inr (onConflictDoNothing tbl rows))"

text \<open>\<^verbatim>\<open>db.delete(t).where(p)\<close>.\<close>

definition delete_where :: "('a \<Rightarrow> bool) \<Rightarrow> 'a list \<Rightarrow> 'a list" where
  "delete_where p tbl = filter (\<lambda>r. \<not> p r) tbl"

text \<open>The tag ids the join table relates to bookmark \<open>b\<close>, in storage order.\<close>

definition relatedTagIds :: "BookmarkToTag list \<Rightarrow> BookmarkId \<Rightarrow> TagId list" where
  "relatedTagIds tbl b = map tId (filter (\<lambda>r. bId r = b) tbl)"

section \<open>Session lookup\<close>

text \<open>
  \<^verbatim>\<open>getAuthedUserId\<close> of \<^verbatim>\<open>src/lib/auth/index.ts\<close>: it raises without a session,
  without a user id (\<^verbatim>\<open>!userId\<close> also holds for the empty string), and when the user
  is not in the users table.
\<close>

definition getAuthedUserId :: "Session option \<Rightarrow> UserId list \<Rightarrow> error + UserId" where
  "getAuthedUserId session us =
     (case session of
        None \<Rightarrow> Inl GetAuthedUserIdFailed
      | Some s \<Rightarrow>
          (case session_user_id s of
             None \<Rightarrow> Inl GetAuthedUserIdFailed
           | Some uid \<Rightarrow>
               if uid = [] then Inl GetAuthedUserIdFailed
               else if uid \<in> set us then Inr uid
               else Inl LoginExpired))"

section \<open>Tag association: fullSetBookmarkToTag\<close>

text \<open>
  Modelled from the spec: \<^verbatim>\<open>UserTagController.filterUserTagIds\<close> is not among the
  sources. The spec gives \<^verbatim>\<open>filterOwnedTagIds(userId, ids)\<close> as the subset of \<open>ids\<close>
  actually owned: it strips any tag id not owned by the requesting user.
\<close>

definition filterUserTagIds :: "UserDb \<Rightarrow> UserId \<Rightarrow> TagId list \<Rightarrow> TagId list" where
  "filterUserTagIds db uid ids =
     filter (\<lambda>i. list_ex (\<lambda>t. tag_id t = i \<and> tag_userId t = uid) (userTags db)) ids"

text \<open>
  The public \<^verbatim>\<open>fullSetBookmarkToTag\<close>. The task array is built insert first, so an
  empty \<open>tagIds\<close> raises in \<^verbatim>\<open>values\<close> before the delete is built.
\<close>

definition PublicBookmark_fullSetBookmarkToTag ::
  "PublicDb \<Rightarrow> BookmarkId \<Rightarrow> TagId list \<Rightarrow> error + PublicDb" where
  "PublicBookmark_fullSetBookmarkToTag db b tagIds =
     (case insert_values_onConflictDoNothing (publicBookmarkToTag db)
             (map (\<lambda>t. \<lparr>bId = b, tId = t\<rparr>) tagIds) of
        Inl e \<Rightarrow> Inl e
      | Inr tbl \<Rightarrow>
          Inr (db\<lparr>publicBookmarkToTag :=
                 delete_where (\<lambda>r. bId r = b \<and> tId r \<notin> set tagIds) tbl\<rparr>))"

text \<open>
  The user \<^verbatim>\<open>fullSetBookmarkToTag\<close>: \<open>tagIds\<close> may be absent (\<open>None\<close>); an absent or
  empty list returns at once, before the session is looked up.
\<close>

definition UserBookmark_fullSetBookmarkToTag ::
  "Session option \<Rightarrow> UserDb \<Rightarrow> BookmarkId \<Rightarrow> TagId list option \<Rightarrow> error + UserDb" where
  "UserBookmark_fullSetBookmarkToTag session db b tagIdsOpt =
     (case tagIdsOpt of
        None \<Rightarrow> Inr db
      | Some tagIds0 \<Rightarrow>
          if tagIds0 = [] then Inr db
          else
            (case getAuthedUserId session (users db) of
               Inl e \<Rightarrow> Inl e
             | Inr uid \<Rightarrow>
                 (let tagIds = filterUserTagIds db uid tagIds0 in
                  case (if tagIds = [] then Inr (userBookmarkToTag db)
                        else insert_values_onConflictDoNothing (userBookmarkToTag db)
                               (map (\<lambda>t. \<lparr>bId = b, tId = t\<rparr>) tagIds)) of
                    Inl e \<Rightarrow> Inl e
                  | Inr tbl \<Rightarrow>
                      Inr (db\<lparr>userBookmarkToTag :=
                             delete_where (\<lambda>r. bId r = b \<and> tId r \<notin> set tagIds) tbl\<rparr>))))"

section \<open>Bookmark repository: insert, update, deleteMany, sort\<close>

text \<open>\<^verbatim>\<open>db.update(t).set(f).where(p)\<close>.\<close>

definition update_where :: "('a \<Rightarrow> bool) \<Rightarrow> ('a \<Rightarrow> 'a) \<Rightarrow> 'a list \<Rightarrow> 'a list" where
  "update_where p f tbl = map (\<lambda>r. if p r then f r else r) tbl"

text \<open>
  The argument of \<^verbatim>\<open>insert\<close>: \<open>new_pinyin\<close>, \<open>new_sortOrder\<close> and
  \<open>new_relatedTagIds\<close> are optional keys (\<open>None\<close> is \<^verbatim>\<open>undefined\<close>). The id is
  drawn from the sequence.
\<close>

record InsertBookmark =
  new_name :: string
  new_url :: string
  new_pinyin :: "string option"
  new_sortOrder :: "int option"
  new_relatedTagIds :: "TagId list option"

text \<open>\<^verbatim>\<open>resetBookmark.pinyin ||= getPinyin(resetBookmark.name)\<close>: the empty string is falsy.\<close>

definition pinyin_or :: "(string \<Rightarrow> string) \<Rightarrow> string option \<Rightarrow> string \<Rightarrow> string" where
  "pinyin_or getPinyin p n =
     (case p of None \<Rightarrow> getPinyin n | Some v \<Rightarrow> if v = [] then getPinyin n else v)"

text \<open>
  The public \<^verbatim>\<open>insert\<close>. \<open>getPinyin\<close> is the transliteration of \<^verbatim>\<open>@/utils\<close>, a
  parameter here. The timestamps of the new row are the column defaults, taken to be the
  time of the insert.
\<close>

definition PublicBookmark_insert ::
  "(string \<Rightarrow> string) \<Rightarrow> int \<Rightarrow> PublicDb \<Rightarrow> InsertBookmark \<Rightarrow> error + PublicDb \<times> Bookmark" where
  "PublicBookmark_insert getPinyin now db bookmark =
     (let count = length (filter (\<lambda>r. url r = new_url bookmark \<or> name r = new_name bookmark)
                            (publicBookmarks db))
      in if count > 0 then Inl BookmarkExists
         else
           (let newId = publicBookmarks_seq db;
                row = \<lparr>id' = newId, name = new_name bookmark, url = new_url bookmark,
                       pinyin = pinyin_or getPinyin (new_pinyin bookmark) (new_name bookmark),
                       sortOrder = new_sortOrder bookmark,
                       createdAt = Some now, updatedAt = Some now\<rparr>;
                db1 = db\<lparr>publicBookmarks := publicBookmarks db @ [row],
                         publicBookmarks_seq := newId + 1\<rparr>
            in case (case new_relatedTagIds bookmark of
                       None \<Rightarrow> Inr db1
                     | Some ts \<Rightarrow>
                         if ts = [] then Inr db1
                         else PublicBookmark_fullSetBookmarkToTag db1 newId ts) of
                 Inl e \<Rightarrow> Inl e
               | Inr db2 \<Rightarrow>
                   if new_sortOrder bookmark = None
                   then Inr (db2\<lparr>publicBookmarks :=
                                  update_where (\<lambda>r. id' r = newId) (\<lambda>r. r\<lparr>sortOrder := Some newId\<rparr>)
                                    (publicBookmarks db2)\<rparr>,
                             row\<lparr>sortOrder := Some newId\<rparr>)
                   else Inr (db2, row)))"

text \<open>
  \<^verbatim>\<open>userLimiter(userId, bookmarkId?)\<close>: \<^verbatim>\<open>!bookmarkId\<close> holds for an absent id and
  for the id \<open>0\<close>.
\<close>

definition userLimiter :: "UserId \<Rightarrow> BookmarkId option \<Rightarrow> UserBookmark \<Rightarrow> bool" where
  "userLimiter uid bookmarkId r =
     (case bookmarkId of
        None \<Rightarrow> userId r = uid
      | Some b \<Rightarrow> if b = 0 then userId r = uid else id' r = b \<and> userId r = uid)"

text \<open>The user \<^verbatim>\<open>insert\<close>: the session is looked up first, the duplicate check is per owner.\<close>

definition UserBookmark_insert ::
  "(string \<Rightarrow> string) \<Rightarrow> int \<Rightarrow> Session option \<Rightarrow> UserDb \<Rightarrow> InsertBookmark
     \<Rightarrow> error + UserDb \<times> UserBookmark" where
  "UserBookmark_insert getPinyin now session db bookmark =
     (case getAuthedUserId session (users db) of
        Inl e \<Rightarrow> Inl e
      | Inr uid \<Rightarrow>
          (let count = length (filter (\<lambda>r. userId r = uid \<and>
                                  (url r = new_url bookmark \<or> name r = new_name bookmark))
                                 (userBookmarks db))
           in if count > 0 then Inl SameUrlOrNameExists
              else
                (let newId = userBookmarks_seq db;
                     row = \<lparr>id' = newId, name = new_name bookmark, url = new_url bookmark,
                            pinyin = pinyin_or getPinyin (new_pinyin bookmark) (new_name bookmark),
                            sortOrder = new_sortOrder bookmark,
                            createdAt = Some now, updatedAt = Some now, userId = uid\<rparr>;
                     db1 = db\<lparr>userBookmarks := userBookmarks db @ [row],
                              userBookmarks_seq := newId + 1\<rparr>
                 in case UserBookmark_fullSetBookmarkToTag session db1 newId
                           (new_relatedTagIds bookmark) of
                      Inl e \<Rightarrow> Inl e
                    | Inr db2 \<Rightarrow>
                        if new_sortOrder bookmark = None
                        then Inr (db2\<lparr>userBookmarks :=
                                       update_where (\<lambda>r. id' r = newId)
                                         (\<lambda>r. r\<lparr>sortOrder := Some newId\<rparr>) (userBookmarks db2)\<rparr>,
                                  row\<lparr>sortOrder := Some newId\<rparr>)
                        else Inr (db2, row))))"

text \<open>
  The argument of \<^verbatim>\<open>update\<close>: every key but the id is optional. The optional columns
  not listed here are written like \<open>patch_url\<close>.
\<close>

record BookmarkPatch =
  patch_id :: BookmarkId
  patch_name :: "string option"
  patch_url :: "string option"
  patch_pinyin :: "string option"
  patch_sortOrder :: "int option"
  patch_relatedTagIds :: "TagId list option"

text \<open>\<^verbatim>\<open>Object.keys(resetBookmark).length\<close>: some key besides the id and the tag ids.\<close>

definition patch_has_keys :: "BookmarkPatch \<Rightarrow> bool" where
  "patch_has_keys p =
     (\<not> (patch_name p = None \<and> patch_url p = None \<and> patch_pinyin p = None \<and>
         patch_sortOrder p = None))"

definition or_keep :: "'a option \<Rightarrow> 'a \<Rightarrow> 'a" where
  "or_keep v old = (case v of None \<Rightarrow> old | Some x \<Rightarrow> x)"

text \<open>
  The public \<^verbatim>\<open>update\<close>. The object given to \<^verbatim>\<open>set\<close> spreads the patch and then
  names \<^verbatim>\<open>pinyin\<close> again: \<^verbatim>\<open>resetBookmark.name ? getPinyin(resetBookmark.name) : undefined\<close>,
  which replaces the patch's own \<^verbatim>\<open>pinyin\<close> key; an \<^verbatim>\<open>undefined\<close> value leaves the
  column as it is. The result is \<^verbatim>\<open>res.pop()\<close>: the first row the update returned.
\<close>

definition PublicBookmark_update ::
  "(string \<Rightarrow> string) \<Rightarrow> int \<Rightarrow> PublicDb \<Rightarrow> BookmarkPatch \<Rightarrow> error + PublicDb \<times> Bookmark option" where
  "PublicBookmark_update getPinyin now db bookmark =
     (case (case patch_relatedTagIds bookmark of
              None \<Rightarrow> Inr db
            | Some ts \<Rightarrow>
                if ts = [] then Inr db
                else PublicBookmark_fullSetBookmarkToTag db (patch_id bookmark) ts) of
        Inl e \<Rightarrow> Inl e
      | Inr db1 \<Rightarrow>
          if patch_has_keys bookmark
          then
            (let rows = update_where (\<lambda>r. id' r = patch_id bookmark)
                          (\<lambda>r. r\<lparr>name := or_keep (patch_name bookmark) (name r),
                                 url := or_keep (patch_url bookmark) (url r),
                                 sortOrder := (case patch_sortOrder bookmark of
                                                 None \<Rightarrow> sortOrder r | Some v \<Rightarrow> Some v),
                                 updatedAt := Some now,
                                 pinyin := (case patch_name bookmark of
                                              None \<Rightarrow> pinyin r
                                            | Some n \<Rightarrow> if n = [] then pinyin r else getPinyin n)\<rparr>)
                          (publicBookmarks db1)
             in Inr (db1\<lparr>publicBookmarks := rows\<rparr>,
                     find (\<lambda>r. id' r = patch_id bookmark) rows))
          else Inr (db1, None))"

text \<open>
  The user \<^verbatim>\<open>update\<close>: \<^verbatim>\<open>if (resetBookmark.name && !resetBookmark.pinyin)\<close> computes
  the pinyin only when the patch brings a name and no (non-empty) pinyin.
\<close>

definition UserBookmark_update ::
  "(string \<Rightarrow> string) \<Rightarrow> int \<Rightarrow> Session option \<Rightarrow> UserDb \<Rightarrow> BookmarkPatch \<Rightarrow> error + UserDb" where
  "UserBookmark_update getPinyin now session db bookmark =
     (case UserBookmark_fullSetBookmarkToTag session db (patch_id bookmark)
             (patch_relatedTagIds bookmark) of
        Inl e \<Rightarrow> Inl e
      | Inr db1 \<Rightarrow>
          if patch_has_keys bookmark
          then
            (let newPinyin =
                   (case patch_name bookmark of
                      None \<Rightarrow> patch_pinyin bookmark
                    | Some n \<Rightarrow>
                        if n \<noteq> [] \<and> (patch_pinyin bookmark = None \<or> patch_pinyin bookmark = Some [])
                        then Some (getPinyin n)
                        else patch_pinyin bookmark)
             in case getAuthedUserId session (users db1) of
                  Inl e \<Rightarrow> Inl e
                | Inr uid \<Rightarrow>
                    Inr (db1\<lparr>userBookmarks :=
                           update_where (userLimiter uid (Some (patch_id bookmark)))
                             (\<lambda>r. r\<lparr>name := or_keep (patch_name bookmark) (name r),
                                    url := or_keep (patch_url bookmark) (url r),
                                    pinyin := or_keep newPinyin (pinyin r),
                                    sortOrder := (case patch_sortOrder bookmark of
                                                    None \<Rightarrow> sortOrder r | Some v \<Rightarrow> Some v),
                                    updatedAt := Some now\<rparr>)
                             (userBookmarks db1)\<rparr>))
          else Inr db1)"

text \<open>\<^verbatim>\<open>deleteMany\<close>: the pair of the new store and the \<^verbatim>\<open>deleted\<close> field of the result.\<close>

definition PublicBookmark_deleteMany :: "PublicDb \<Rightarrow> BookmarkId list \<Rightarrow> PublicDb \<times> nat" where
  "PublicBookmark_deleteMany db ids =
     (if ids = [] then (db, 0)
      else (db\<lparr>publicBookmarks := delete_where (\<lambda>r. id' r \<in> set ids) (publicBookmarks db)\<rparr>,
            length ids))"

definition UserBookmark_deleteMany ::
  "Session option \<Rightarrow> UserDb \<Rightarrow> BookmarkId list \<Rightarrow> error + UserDb \<times> nat" where
  "UserBookmark_deleteMany session db ids =
     (if ids = [] then Inr (db, 0)
      else
        (case getAuthedUserId session (users db) of
           Inl e \<Rightarrow> Inl e
         | Inr uid \<Rightarrow>
             Inr (db\<lparr>userBookmarks :=
                    delete_where (\<lambda>r. userLimiter uid None r \<and> id' r \<in> set ids) (userBookmarks db)\<rparr>,
                  length ids)))"

text \<open>\<^verbatim>\<open>sort(orders)\<close>: one update per pair \<^verbatim>\<open>{id, order}\<close>.\<close>

definition PublicBookmark_sort :: "PublicDb \<Rightarrow> (BookmarkId \<times> int) list \<Rightarrow> PublicDb" where
  "PublicBookmark_sort db orders =
     db\<lparr>publicBookmarks :=
          fold (\<lambda>el. update_where (\<lambda>r. id' r = fst el) (\<lambda>r. r\<lparr>sortOrder := Some (snd el)\<rparr>))
            orders (publicBookmarks db)\<rparr>"

definition UserBookmark_sort ::
  "Session option \<Rightarrow> UserDb \<Rightarrow> (BookmarkId \<times> int) list \<Rightarrow> error + UserDb" where
  "UserBookmark_sort session db orders =
     (case getAuthedUserId session (users db) of
        Inl e \<Rightarrow> Inl e
      | Inr uid \<Rightarrow>
          Inr (db\<lparr>userBookmarks :=
                 fold (\<lambda>el. update_where (userLimiter uid (Some (fst el)))
                              (\<lambda>r. r\<lparr>sortOrder := Some (snd el)\<rparr>))
                   orders (userBookmarks db)\<rparr>))"

section \<open>Bookmark repository: findMany\<close>

text \<open>
  The parsed query. \<open>keyword\<close> is falsy when empty; \<open>tagIds\<close> defaults to the empty
  list; \<open>tagNames\<close> may be absent. \<open>sorterKey\<close> is one of \<^verbatim>\<open>manual\<close>,
  \<^verbatim>\<open>-createTime\<close>, \<^verbatim>\<open>+createTime\<close>, \<^verbatim>\<open>-updateTime\<close>, \<^verbatim>\<open>+updateTime\<close>.
\<close>

record FindManyQuery =
  keyword :: string
  tagIds :: "TagId list"
  tagNames :: "string list option"
  page :: int
  limit :: int
  sorterKey :: string

text \<open>The result: \<open>list'\<close> is the field \<^verbatim>\<open>list\<close>, each row with its \<^verbatim>\<open>relatedTagIds\<close>.\<close>

record 'row FindManyResult =
  total' :: nat
  hasMore :: bool
  list' :: "('row \<times> TagId list) list"

text \<open>\<^verbatim>\<open>String.prototype.includes\<close>, \<^verbatim>\<open>startsWith\<close> and \<^verbatim>\<open>toLowerCase\<close> (ASCII letters).\<close>

definition String_includes :: "string \<Rightarrow> string \<Rightarrow> bool" where
  "String_includes s sub = list_ex (\<lambda>i. take (length sub) (drop i s) = sub) [0..<Suc (length s)]"

definition String_startsWith :: "string \<Rightarrow> string \<Rightarrow> bool" where
  "String_startsWith s pre = (take (length pre) s = pre)"

definition toLowerCase :: "string \<Rightarrow> string" where
  "toLowerCase s =
     map (\<lambda>c. let n = (of_char c :: nat) in if 65 \<le> n \<and> n \<le> 90 then char_of (n + 32) else c) s"

text \<open>
  Modelled from the spec: \<^verbatim>\<open>createBookmarkFilterByKeyword\<close> of \<^verbatim>\<open>./common\<close> is not
  among the sources. The spec gives it as the predicate matching bookmarks whose name,
  url, or pinyin field contains the keyword as a case-insensitive substring.
\<close>

definition createBookmarkFilterByKeyword :: "string \<Rightarrow> 'a Bookmark_scheme \<Rightarrow> bool" where
  "createBookmarkFilterByKeyword kw r =
     (String_includes (toLowerCase (name r)) (toLowerCase kw) \<or>
      String_includes (toLowerCase (url r)) (toLowerCase kw) \<or>
      String_includes (toLowerCase (pinyin r)) (toLowerCase kw))"

text \<open>
  The loop over \<open>tagNames\<close>: \<^verbatim>\<open>tags.find((el) => el.name === name)\<close>, and the id of a
  tag found is pushed onto \<open>tagIds\<close>.
\<close>

definition resolveTagNames :: "'a Tag_scheme list \<Rightarrow> string list option \<Rightarrow> TagId list" where
  "resolveTagNames tags names =
     (case names of
        None \<Rightarrow> []
      | Some ns \<Rightarrow>
          concat (map (\<lambda>n. case find (\<lambda>el. tag_name el = n) tags of
                              None \<Rightarrow> [] | Some tag \<Rightarrow> [tag_id tag]) ns))"

text \<open>
  The subquery \<^verbatim>\<open>findTargetBIds\<close>: the \<open>bId\<close>s of the join rows whose \<open>tId\<close> is in
  \<open>ids\<close>, grouped by \<open>bId\<close>, having \<^verbatim>\<open>COUNT(DISTINCT tId) = ids.length\<close>.
\<close>

definition findTargetBIds :: "BookmarkToTag list \<Rightarrow> TagId list \<Rightarrow> BookmarkId list" where
  "findTargetBIds tbl ids =
     (let matched = filter (\<lambda>r. tId r \<in> set ids) tbl
      in filter (\<lambda>b. length (remdups (relatedTagIds matched b)) = length ids)
           (remdups (map bId matched)))"

text \<open>
  \<^verbatim>\<open>orderBy\<close>. \<open>descKey\<close> and \<open>ascKey\<close> turn a nullable column into a sort key;
  NULL is taken as the smallest value. \<open>sort_key\<close> is stable, so rows with equal keys
  keep their storage order. A \<open>sorterKey\<close> that names neither column leaves the rows
  unordered (\<^verbatim>\<open>undefined\<close>).
\<close>

definition descKey :: "int option \<Rightarrow> int \<times> int" where
  "descKey v = (case v of None \<Rightarrow> (1, 0) | Some x \<Rightarrow> (0, - x))"

definition ascKey :: "int option \<Rightarrow> int \<times> int" where
  "ascKey v = (case v of None \<Rightarrow> (0, 0) | Some x \<Rightarrow> (1, x))"

definition orderBy_manual :: "'a Bookmark_scheme list \<Rightarrow> 'a Bookmark_scheme list" where
  "orderBy_manual rows = sort_key (\<lambda>r. (descKey (sortOrder r), descKey (updatedAt r))) rows"

definition orderBy :: "string \<Rightarrow> 'a Bookmark_scheme list \<Rightarrow> 'a Bookmark_scheme list" where
  "orderBy key rows =
     (if key = ''manual'' then orderBy_manual rows
      else
        (let k = (if String_startsWith key ''-'' then descKey else ascKey)
         in if String_includes key ''update'' then sort_key (\<lambda>r. k (updatedAt r)) rows
            else if String_includes key ''create'' then sort_key (\<lambda>r. k (createdAt r)) rows
            else rows))"

text \<open>\<^verbatim>\<open>limit\<close> and \<^verbatim>\<open>offset: (page - 1) * limit\<close>.\<close>

definition paginate :: "int \<Rightarrow> int \<Rightarrow> 'a list \<Rightarrow> 'a list" where
  "paginate pg lim rows = take (nat lim) (drop (nat ((pg - 1) * lim)) rows)"

text \<open>
  The tag ids the filter is built from in the public scope: \<open>tagIds\<close> with the ids of
  the resolved \<open>tagNames\<close> pushed onto it.
\<close>

definition PublicBookmark_resolvedTagIds :: "PublicDb \<Rightarrow> FindManyQuery \<Rightarrow> TagId list" where
  "PublicBookmark_resolvedTagIds db query =
     tagIds query @ resolveTagNames (publicTags db) (tagNames query)"

definition PublicBookmark_getFilters :: "PublicDb \<Rightarrow> FindManyQuery \<Rightarrow> Bookmark \<Rightarrow> bool" where
  "PublicBookmark_getFilters db query r =
     ((if keyword query = [] then True else createBookmarkFilterByKeyword (keyword query) r) \<and>
      (if PublicBookmark_resolvedTagIds db query = [] then True
       else id' r \<in> set (findTargetBIds (publicBookmarkToTag db)
                           (PublicBookmark_resolvedTagIds db query))))"

text \<open>
  The public \<^verbatim>\<open>findMany\<close>, on a parsed query (an absent query is replaced by the
  schema's defaults before anything else).
\<close>

definition PublicBookmark_findMany :: "PublicDb \<Rightarrow> FindManyQuery \<Rightarrow> Bookmark FindManyResult" where
  "PublicBookmark_findMany db query =
     (let matching = filter (PublicBookmark_getFilters db query) (publicBookmarks db);
          rows = paginate (page query) (limit query) (orderBy (sorterKey query) matching)
      in \<lparr>total' = length matching,
          hasMore = (int (length matching) > page query * limit query),
          list' = map (\<lambda>r. (r, relatedTagIds (publicBookmarkToTag db) (id' r))) rows\<rparr>)"

text \<open>
  Modelled from the spec: \<^verbatim>\<open>UserTagController.getAll\<close> is not among the sources. The
  spec gives \<^verbatim>\<open>listAll(scope)\<close> as the ordered list of the scope's tags: here the tags
  of the user, in the order of \<open>userTags\<close>.
\<close>

definition UserTag_getAll :: "UserDb \<Rightarrow> UserId \<Rightarrow> UserTag list" where
  "UserTag_getAll db uid = filter (\<lambda>t. tag_userId t = uid) (userTags db)"

text \<open>
  The tag ids the filter is built from in the user scope: \<open>newTagIds\<close>, the resolved
  ids passed through \<open>filterUserTagIds\<close>.
\<close>

definition UserBookmark_resolvedTagIds :: "UserDb \<Rightarrow> UserId \<Rightarrow> FindManyQuery \<Rightarrow> TagId list" where
  "UserBookmark_resolvedTagIds db uid query =
     tagIds query @ resolveTagNames (UserTag_getAll db uid) (tagNames query)"

definition UserBookmark_newTagIds :: "UserDb \<Rightarrow> UserId \<Rightarrow> FindManyQuery \<Rightarrow> TagId list" where
  "UserBookmark_newTagIds db uid query =
     filterUserTagIds db uid (UserBookmark_resolvedTagIds db uid query)"

definition UserBookmark_getFilters ::
  "UserDb \<Rightarrow> UserId \<Rightarrow> FindManyQuery \<Rightarrow> UserBookmark \<Rightarrow> bool" where
  "UserBookmark_getFilters db uid query r =
     (userLimiter uid None r \<and>
      (if keyword query = [] then True else createBookmarkFilterByKeyword (keyword query) r) \<and>
      (if UserBookmark_newTagIds db uid query = [] then True
       else id' r \<in> set (findTargetBIds (userBookmarkToTag db)
                           (UserBookmark_newTagIds db uid query))))"

definition UserBookmark_findMany ::
  "Session option \<Rightarrow> UserDb \<Rightarrow> FindManyQuery \<Rightarrow> error + UserBookmark FindManyResult" where
  "UserBookmark_findMany session db query =
     (case getAuthedUserId session (users db) of
        Inl e \<Rightarrow> Inl e
      | Inr uid \<Rightarrow>
          (let matching = filter (UserBookmark_getFilters db uid query) (userBookmarks db);
               rows = paginate (page query) (limit query) (orderBy (sorterKey query) matching)
           in Inr \<lparr>total' = length matching,
                   hasMore = (int (length matching) > page query * limit query),
                   list' = map (\<lambda>r. (r, relatedTagIds (userBookmarkToTag db) (id' r))) rows\<rparr>))"

section \<open>Export serializer\<close>

text \<open>
  A JavaScript number. \<open>Num n\<close> is the integer \<open>n\<close>, for a time value, a clock
  reading, or an integer up to \<^verbatim>\<open>Number.MAX_SAFE_INTEGER\<close> in absolute value: binary64
  holds it exactly, \<^verbatim>\<open>Math.floor(n / 1000)\<close> is \<open>n div 1000\<close>, and a template literal
  prints its decimal digits. \<open>Binary64 m e\<close> is any other finite number, of value
  \<open>m \<cdot> 2\<^sup>e\<close> (a non-integer, an integer beyond the safe range); then \<^verbatim>\<open>NaN\<close> and the
  two infinities.
\<close>

datatype jsnum = Num int | Binary64 int int | NaN | PosInfinity | NegInfinity

definition MAX_SAFE_INTEGER :: int where
  "MAX_SAFE_INTEGER = 9007199254740991"

text \<open>
  What the model takes from the JavaScript engine: \<^verbatim>\<open>Date.parse\<close> (\<open>None\<close> is
  \<^verbatim>\<open>NaN\<close>), and, for a number \<open>m \<cdot> 2\<^sup>e\<close> that is not a safe integer,
  \<^verbatim>\<open>Math.floor(val / 1000)\<close> (the binary64 quotient, floored) and the text a template
  literal prints for it.
\<close>

record Runtime =
  Date_parse :: "string \<Rightarrow> int option"
  Math_floor_div_1000 :: "int \<Rightarrow> int \<Rightarrow> jsnum"
  Number_toString :: "int \<Rightarrow> int \<Rightarrow> string"

text \<open>
  A value of type \<^verbatim>\<open>unknown\<close>, as \<^verbatim>\<open>toUnixSeconds\<close> inspects it: a \<^verbatim>\<open>Date\<close> (its
  \<^verbatim>\<open>getTime()\<close> in milliseconds, \<open>None\<close> for an invalid date, whose time value is
  \<^verbatim>\<open>NaN\<close>), a number, a string, \<^verbatim>\<open>null\<close>, \<^verbatim>\<open>undefined\<close>, or anything else.
\<close>

datatype jsval =
  JUndefined | JNull | JDate "int option" | JNumber jsnum | JString string | JOther

record BookmarkHtmlItem =
  item_name :: string
  item_url :: string
  item_createdAt :: jsval
  item_updatedAt :: jsval

record BookmarkHtmlFolder =
  folder_name :: string
  folder_bookmarks :: "BookmarkHtmlItem list"

text \<open>\<^verbatim>\<open>replaceAll\<close> with a one-character pattern, and \<^verbatim>\<open>escapeHtml\<close>.\<close>

definition replaceAll :: "char \<Rightarrow> string \<Rightarrow> string \<Rightarrow> string" where
  "replaceAll c rep s = concat (map (\<lambda>x. if x = c then rep else [x]) s)"

definition escapeHtml :: "string \<Rightarrow> string" where
  "escapeHtml val =
     replaceAll (CHR 0x22) ''&quot;''
       (replaceAll (CHR ''>'') ''&gt;''
          (replaceAll (CHR ''<'') ''&lt;''
             (replaceAll (CHR ''&'') ''&amp;'' val)))"

text \<open>
  The decimal text of an integer, and the text a template literal prints for a number.
\<close>

fun digits :: "nat \<Rightarrow> string" where
  "digits n =
     (if n < 10 then [''0123456789'' ! n]
      else digits (n div 10) @ [''0123456789'' ! (n mod 10)])"

declare digits.simps [simp del]

definition String_of_int :: "int \<Rightarrow> string" where
  "String_of_int i = (if i < 0 then CHR ''-'' # digits (nat (- i)) else digits (nat i))"

definition String_of_number :: "Runtime \<Rightarrow> jsnum \<Rightarrow> string" where
  "String_of_number js x =
     (case x of
        Num i \<Rightarrow> String_of_int i
      | Binary64 m e \<Rightarrow> Number_toString js m e
      | NaN \<Rightarrow> ''NaN''
      | PosInfinity \<Rightarrow> ''Infinity''
      | NegInfinity \<Rightarrow> ''-Infinity'')"

text \<open>
  The clock of one call: \<open>clock k\<close> is what the \<open>k\<close>-th call of \<^verbatim>\<open>Date.now()\<close>
  returns, counting from 0. A function that may read the clock takes the number of
  readings made so far and returns it updated.
\<close>

type_synonym Clock = "nat \<Rightarrow> int"

text \<open>
  The number branch of \<^verbatim>\<open>toUnixSeconds\<close>:
  \<^verbatim>\<open>val > 10_000_000_000 ? Math.floor(val / 1000) : val\<close>. \<open>above_1e10 m e\<close> is
  \<open>m \<cdot> 2\<^sup>e > 10\<^sup>1\<^sup>0\<close>. An integer beyond the safe range is the number \<open>n \<cdot> 2\<^sup>0\<close>.
  No comparison with \<^verbatim>\<open>NaN\<close> holds, so \<^verbatim>\<open>NaN\<close> is returned as it is;
  \<^verbatim>\<open>Math.floor(Infinity / 1000)\<close> is \<^verbatim>\<open>Infinity\<close>.
\<close>

definition above_1e10 :: "int \<Rightarrow> int \<Rightarrow> bool" where
  "above_1e10 m e =
     (if 0 \<le> e then m * 2 ^ nat e > 10000000000 else m > 10000000000 * 2 ^ nat (- e))"

definition binary64Seconds :: "Runtime \<Rightarrow> int \<Rightarrow> int \<Rightarrow> jsnum" where
  "binary64Seconds js m e = (if above_1e10 m e then Math_floor_div_1000 js m e else Binary64 m e)"

definition numberSeconds :: "Runtime \<Rightarrow> jsnum \<Rightarrow> jsnum" where
  "numberSeconds js val =
     (case val of
        Num n \<Rightarrow>
          if \<bar>n\<bar> > MAX_SAFE_INTEGER then binary64Seconds js n 0
          else if n > 10000000000 then Num (n div 1000)
          else Num n
      | Binary64 m e \<Rightarrow> binary64Seconds js m e
      | NaN \<Rightarrow> NaN
      | PosInfinity \<Rightarrow> PosInfinity
      | NegInfinity \<Rightarrow> NegInfinity)"

text \<open>
  \<^verbatim>\<open>toUnixSeconds\<close>. A string that \<^verbatim>\<open>Date.parse\<close> refuses falls through to the last
  line, which reads the clock.
\<close>

definition toUnixSeconds :: "Runtime \<Rightarrow> Clock \<Rightarrow> nat \<Rightarrow> jsval \<Rightarrow> jsnum \<times> nat" where
  "toUnixSeconds js clock k val =
     (case val of
        JDate t \<Rightarrow> (case t of Some ms \<Rightarrow> (Num (ms div 1000), k) | None \<Rightarrow> (NaN, k))
      | JNumber n \<Rightarrow> (numberSeconds js n, k)
      | JString str \<Rightarrow>
          (case Date_parse js str of
             Some t \<Rightarrow> (Num (t div 1000), k)
           | None \<Rightarrow> (Num (clock k div 1000), Suc k))
      | _ \<Rightarrow> (Num (clock k div 1000), Suc k))"

text \<open>\<^verbatim>\<open>a ?? b\<close>.\<close>

definition nullish_or :: "jsval \<Rightarrow> jsval \<Rightarrow> jsval" where
  "nullish_or a b = (if a = JUndefined \<or> a = JNull then b else a)"

text \<open>The value \<^verbatim>\<open>addDate\<close> of a bookmark entry, with the updated count of readings.\<close>

definition addDate :: "Runtime \<Rightarrow> Clock \<Rightarrow> nat \<Rightarrow> BookmarkHtmlItem \<Rightarrow> jsnum \<times> nat" where
  "addDate js clock k b =
     toUnixSeconds js clock k (nullish_or (item_createdAt b) (item_updatedAt b))"

text \<open>
  The line of one bookmark entry; \<^verbatim>\<open>b.name || b.url\<close> takes the url for an empty
  name.
\<close>

definition bookmarkLine :: "Runtime \<Rightarrow> Clock \<Rightarrow> nat \<Rightarrow> BookmarkHtmlItem \<Rightarrow> string \<times> nat" where
  \<open>bookmarkLine js clock k b =
     (''      <DT><A HREF="'' @ escapeHtml (item_url b) @ ''" ADD_DATE="'' @
        String_of_number js (fst (addDate js clock k b)) @ ''">'' @
        escapeHtml (if item_name b = [] then item_url b else item_name b) @ ''</A>'',
      snd (addDate js clock k b))\<close>

text \<open>The inner loop over the bookmarks of a folder, and the outer loop over the folders.\<close>

fun bookmarkLines ::
  "Runtime \<Rightarrow> Clock \<Rightarrow> nat \<Rightarrow> BookmarkHtmlItem list \<Rightarrow> string list \<times> nat" where
  "bookmarkLines js clock k [] = ([], k)"
| "bookmarkLines js clock k (b # bs) =
     (let l = bookmarkLine js clock k b;
          more = bookmarkLines js clock (snd l) bs
      in (fst l # fst more, snd more))"

fun folderLines ::
  "Runtime \<Rightarrow> Clock \<Rightarrow> nat \<Rightarrow> BookmarkHtmlFolder list \<Rightarrow> string list \<times> nat" where
  "folderLines js clock k [] = ([], k)"
| \<open>folderLines js clock k (folder # rest) =
     (let ls = bookmarkLines js clock k (folder_bookmarks folder);
          more = folderLines js clock (snd ls) rest
      in ([''    <DT><H3 ADD_DATE="'' @ String_of_int (clock 0 div 1000) @ ''">'' @
             escapeHtml (folder_name folder) @ ''</H3>'',
           ''    <DL><p>''] @
          fst ls @ [''    </DL><p>''] @ fst more,
          snd more))\<close>

text \<open>\<^verbatim>\<open>lines.join('\n')\<close>.\<close>

definition join_lines :: "string list \<Rightarrow> string" where
  "join_lines ls =
     (case ls of [] \<Rightarrow> [] | l # rest \<Rightarrow> l @ concat (map (\<lambda>x. CHR 0x0A # x) rest))"

text \<open>
  \<^verbatim>\<open>buildBookmarkHtml\<close> (the same text in both controllers): the seven lines
  \<^verbatim>\<open>lines\<close> starts with, the lines the loop pushes, the two closing lines, joined.
  \<open>folderAddDate\<close> is \<^verbatim>\<open>Math.floor(Date.now() / 1000)\<close>, the first reading of the
  clock; the entries read on from reading 1.
\<close>

definition headerLines :: "Clock \<Rightarrow> string \<Rightarrow> string \<Rightarrow> string list" where
  \<open>headerLines clock title folderName =
     [''<!DOCTYPE NETSCAPE-Bookmark-file-1>'',
      ''<META HTTP-EQUIV="Content-Type" CONTENT="text/html; charset=UTF-8">'',
      ''<TITLE>'' @ escapeHtml title @ ''</TITLE>'',
      ''<H1>'' @ escapeHtml title @ ''</H1>'',
      ''<DL><p>'',
      ''  <DT><H3 ADD_DATE="'' @ String_of_int (clock 0 div 1000) @ ''">'' @
        escapeHtml folderName @ ''</H3>'',
      ''  <DL><p>'']\<close>

definition buildBookmarkHtml ::
  "Runtime \<Rightarrow> Clock \<Rightarrow> string \<Rightarrow> string \<Rightarrow> BookmarkHtmlFolder list \<Rightarrow> string" where
  "buildBookmarkHtml js clock title folderName folders =
     join_lines
       (headerLines clock title folderName @
        fst (folderLines js clock 1 folders) @
        [''  </DL><p>'', ''</DL><p>''])"

text \<open>
  The grouping loop of \<^verbatim>\<open>exportHtml\<close> (the same text in both controllers).
  \<open>tagIdToName\<close> is the \<^verbatim>\<open>Map\<close> built from the tags (a later entry replaces an
  earlier one with the same id); the buckets \<^verbatim>\<open>tagIdToBookmarks\<close> are a map from tag
  ids to item lists. Every tag id is an integer, so the
  \<^verbatim>\<open>filter((id) => Number.isFinite(id))\<close> keeps all of them.
\<close>

definition tagIdToName :: "'a Tag_scheme list \<Rightarrow> TagId \<Rightarrow> string option" where
  "tagIdToName tags = map_of (rev (map (\<lambda>t. (tag_id t, tag_name t)) tags))"

fun pushToTags ::
  "(TagId \<Rightarrow> string option) \<Rightarrow> BookmarkHtmlItem \<Rightarrow> TagId list
     \<Rightarrow> (TagId \<Rightarrow> BookmarkHtmlItem list option) \<Rightarrow> (TagId \<Rightarrow> BookmarkHtmlItem list option)" where
  "pushToTags names item [] m = m"
| "pushToTags names item (t # ts) m =
     (if names t = None then pushToTags names item ts m
      else pushToTags names item ts
             (case m t of
                Some arr \<Rightarrow> m(t \<mapsto> arr @ [item])
              | None \<Rightarrow> m(t \<mapsto> [item])))"

fun groupBookmarks ::
  "(TagId \<Rightarrow> string option) \<Rightarrow> (BookmarkHtmlItem \<times> TagId list) list
     \<Rightarrow> (TagId \<Rightarrow> BookmarkHtmlItem list option) \<times> BookmarkHtmlItem list
     \<Rightarrow> (TagId \<Rightarrow> BookmarkHtmlItem list option) \<times> BookmarkHtmlItem list" where
  "groupBookmarks names [] st = st"
| "groupBookmarks names ((item, ids) # rest) (m, untagged) =
     (if ids = [] then groupBookmarks names rest (m, untagged @ [item])
      else groupBookmarks names rest (pushToTags names item ids m, untagged))"

text \<open>The folder name of the untagged bucket: the UTF-8 bytes of the three characters.\<close>

definition untaggedName :: string where
  "untaggedName =
     [CHR 0xE6, CHR 0x9C, CHR 0xAA, CHR 0xE5, CHR 0x88, CHR 0x86, CHR 0xE7, CHR 0xB1, CHR 0xBB]"

definition tagFolders ::
  "'a Tag_scheme list \<Rightarrow> (TagId \<Rightarrow> BookmarkHtmlItem list option) \<Rightarrow> BookmarkHtmlFolder list" where
  "tagFolders tags m =
     concat (map (\<lambda>t. case m (tag_id t) of
                         None \<Rightarrow> []
                       | Some bs \<Rightarrow>
                           if bs = [] then []
                           else [\<lparr>folder_name = tag_name t, folder_bookmarks = bs\<rparr>]) tags)"

definition exportFolders ::
  "'a Tag_scheme list \<Rightarrow> (BookmarkHtmlItem \<times> TagId list) list \<Rightarrow> BookmarkHtmlFolder list" where
  "exportFolders tags bs =
     (let st = groupBookmarks (tagIdToName tags) bs (Map.empty, [])
      in tagFolders tags (fst st) @
         (if snd st = [] then []
          else [\<lparr>folder_name = untaggedName, folder_bookmarks = snd st\<rparr>]))"

text \<open>A timestamp column as the item carries it: a \<^verbatim>\<open>Date\<close>, or \<^verbatim>\<open>null\<close>.\<close>

definition columnValue :: "int option \<Rightarrow> jsval" where
  "columnValue v = (case v of None \<Rightarrow> JNull | Some ms \<Rightarrow> JDate (Some ms))"

definition toItem :: "'a Bookmark_scheme \<Rightarrow> BookmarkHtmlItem" where
  "toItem b = \<lparr>item_name = name b, item_url = url b,
               item_createdAt = columnValue (createdAt b),
               item_updatedAt = columnValue (updatedAt b)\<rparr>"

text \<open>
  The bookmarks of the public \<^verbatim>\<open>exportHtml\<close> ordered by \<open>sortOrder\<close> and
  \<open>updatedAt\<close>, both descending, rows with equal keys in storage order, each with its
  related tag ids in storage order; and the folders made of them.
\<close>

definition PublicBookmark_exportList :: "PublicDb \<Rightarrow> (BookmarkHtmlItem \<times> TagId list) list" where
  "PublicBookmark_exportList db =
     map (\<lambda>b. (toItem b, relatedTagIds (publicBookmarkToTag db) (id' b)))
       (orderBy_manual (publicBookmarks db))"

definition PublicBookmark_exportFolders :: "PublicDb \<Rightarrow> BookmarkHtmlFolder list" where
  "PublicBookmark_exportFolders db = exportFolders (publicTags db) (PublicBookmark_exportList db)"

text \<open>
  The store's answer to the bookmark query of \<^verbatim>\<open>exportHtml\<close>: the rows of the table in
  an order that \<^verbatim>\<open>orderBy\<close> allows (rows with equal keys may come in any order), each
  with its related tag ids (in any order).
\<close>

definition manualKey :: "'a Bookmark_scheme \<Rightarrow> (int \<times> int) \<times> (int \<times> int)" where
  "manualKey r = (descKey (sortOrder r), descKey (updatedAt r))"

definition fetchedRows ::
  "'a Bookmark_scheme list \<Rightarrow> BookmarkToTag list \<Rightarrow> ('a Bookmark_scheme \<times> TagId list) list \<Rightarrow> bool" where
  "fetchedRows tbl joinTbl fetched =
     (mset (map fst fetched) = mset tbl \<and>
      sorted (map manualKey (map fst fetched)) \<and>
      list_all (\<lambda>p. mset (snd p) = mset (relatedTagIds joinTbl (id' (fst p)))) fetched)"

definition toItems ::
  "('a Bookmark_scheme \<times> TagId list) list \<Rightarrow> (BookmarkHtmlItem \<times> TagId list) list" where
  "toItems fetched = map (\<lambda>p. (toItem (fst p), snd p)) fetched"

definition PublicBookmark_fetched :: "PublicDb \<Rightarrow> (Bookmark \<times> TagId list) list \<Rightarrow> bool" where
  "PublicBookmark_fetched db fetched =
     fetchedRows (publicBookmarks db) (publicBookmarkToTag db) fetched"

text \<open>
  The document of the public \<^verbatim>\<open>exportHtml\<close>, given the store's answer \<open>fetched\<close> and
  the clock.
\<close>

definition PublicBookmark_exportHtml ::
  "Runtime \<Rightarrow> Clock \<Rightarrow> PublicDb \<Rightarrow> (Bookmark \<times> TagId list) list \<Rightarrow> string" where
  "PublicBookmark_exportHtml js clock db fetched =
     buildBookmarkHtml js clock ''bmm public bookmarks'' ''bmm-export''
       (exportFolders (publicTags db) (toItems fetched))"

definition UserBookmark_exportList :: "UserDb \<Rightarrow> UserId \<Rightarrow> (BookmarkHtmlItem \<times> TagId list) list" where
  "UserBookmark_exportList db uid =
     map (\<lambda>b. (toItem b, relatedTagIds (userBookmarkToTag db) (id' b)))
       (orderBy_manual (filter (userLimiter uid None) (userBookmarks db)))"

definition UserBookmark_exportFolders :: "UserDb \<Rightarrow> UserId \<Rightarrow> BookmarkHtmlFolder list" where
  "UserBookmark_exportFolders db uid =
     exportFolders (UserTag_getAll db uid) (UserBookmark_exportList db uid)"

definition UserBookmark_fetched ::
  "UserDb \<Rightarrow> UserId \<Rightarrow> (UserBookmark \<times> TagId list) list \<Rightarrow> bool" where
  "UserBookmark_fetched db uid fetched =
     fetchedRows (filter (userLimiter uid None) (userBookmarks db)) (userBookmarkToTag db) fetched"

definition UserBookmark_exportHtml ::
  "Runtime \<Rightarrow> Clock \<Rightarrow> Session option \<Rightarrow> UserDb
     \<Rightarrow> (UserBookmark \<times> TagId list) list \<Rightarrow> error + string" where
  "UserBookmark_exportHtml js clock session db fetched =
     (case getAuthedUserId session (users db) of
        Inl e \<Rightarrow> Inl e
      | Inr uid \<Rightarrow>
          Inr (buildBookmarkHtml js clock ''bmm user bookmarks'' ''bmm-export''
                 (exportFolders (UserTag_getAll db uid) (toItems fetched))))"

section \<open>Manual sort reconciler\<close>

text \<open>
  \<^verbatim>\<open>onSaveSorting\<close> of the bookmark list page, up to the list \<open>orders\<close> it hands to
  the sort action; \<open>None\<close> is the early return on an empty list. A pair is
  \<^verbatim>\<open>{id, order}\<close>. \<^verbatim>\<open>b.sortOrder || 0\<close> reads a missing order as \<open>0\<close>;
  \<^verbatim>\<open>Math.max(0, ...xs)\<close> is the fold of \<open>max\<close> from \<open>0\<close>.
\<close>

definition hasFilter :: "string option \<Rightarrow> string \<Rightarrow> bool" where
  "hasFilter selectedTag kw = ((selectedTag \<noteq> None \<and> selectedTag \<noteq> Some []) \<or> kw \<noteq> [])"

definition sortOrder_or_0 :: "'a Bookmark_scheme \<Rightarrow> int" where
  "sortOrder_or_0 b = (case sortOrder b of None \<Rightarrow> 0 | Some v \<Rightarrow> v)"

definition Math_max0 :: "int list \<Rightarrow> int" where
  "Math_max0 xs = fold max xs 0"

definition onSaveSorting ::
  "string option \<Rightarrow> string \<Rightarrow> 'a Bookmark_scheme list \<Rightarrow> (BookmarkId \<times> int) list option" where
  "onSaveSorting selectedTag kw bookmarks =
     (if bookmarks = [] then None
      else if \<not> hasFilter selectedTag kw
      then
        (let mx = Math_max0 (map sortOrder_or_0 bookmarks);
             base = mx + int (length bookmarks)
         in Some (map (\<lambda>(idx, b). (id' b, base - int idx)) (enumerate 0 bookmarks)))
      else
        (let oldOrdersSorted = rev (sort (map sortOrder_or_0 bookmarks));
             allSame = list_all (\<lambda>v. v = hd oldOrdersSorted) oldOrdersSorted;
             targetOrders =
               (if allSame
                then map (\<lambda>idx. hd oldOrdersSorted + (int (length bookmarks) - int idx))
                       [0..<length bookmarks]
                else oldOrdersSorted)
         in Some (map (\<lambda>(b, ord). (id' b, ord))
                    (filter (\<lambda>(b, ord). ord \<noteq> sortOrder_or_0 b) (zip bookmarks targetOrders)))))"

section \<open>Notions the properties are stated with\<close>

text \<open>The join rows of bookmark \<open>b\<close>, as a set.\<close>

definition rowsFor :: "BookmarkToTag list \<Rightarrow> BookmarkId \<Rightarrow> BookmarkToTag set" where
  "rowsFor tbl b = set (filter (\<lambda>r. bId r = b) tbl)"

text \<open>The set \<open>{(b, t) : t \<in> T}\<close> of join rows.\<close>

definition pairsOf :: "BookmarkId \<Rightarrow> TagId list \<Rightarrow> BookmarkToTag set" where
  "pairsOf b T = (\<lambda>t. \<lparr>bId = b, tId = t\<rparr>) ` set T"

text \<open>A session of user \<open>u\<close>.\<close>

definition sessionOf :: "UserId \<Rightarrow> Session option" where
  "sessionOf u = Some \<lparr>session_user_id = Some u\<rparr>"

text \<open>
  A runtime for the examples, whose bookmarks carry dates and nulls only: its
  \<^verbatim>\<open>Date.parse\<close> recognises no string, and its two number primitives are never called.
\<close>

definition exampleRuntime :: Runtime where
  "exampleRuntime =
     \<lparr>Date_parse = (\<lambda>str. None), Math_floor_div_1000 = (\<lambda>m e. NaN),
      Number_toString = (\<lambda>m e. [])\<rparr>"

text \<open>
  A user store for the examples: user \<open>u\<close> owns the tags 1 and 2 and the bookmark 1,
  which carries both tags; tag 3 belongs to user \<open>v\<close>.
\<close>

definition exampleUserBookmark :: UserBookmark where
  "exampleUserBookmark =
     \<lparr>id' = 1, name = ''one'', url = ''http://one'', pinyin = ''one'',
      sortOrder = Some 1, createdAt = Some 1000, updatedAt = Some 1000, userId = ''u''\<rparr>"

definition exampleUserDb :: UserDb where
  "exampleUserDb =
     \<lparr>userBookmarks = [exampleUserBookmark],
      userBookmarkToTag = [\<lparr>bId = 1, tId = 1\<rparr>, \<lparr>bId = 1, tId = 2\<rparr>],
      userTags =
        [\<lparr>tag_id = 1, tag_name = ''a'', tag_userId = ''u''\<rparr>,
         \<lparr>tag_id = 2, tag_name = ''b'', tag_userId = ''u''\<rparr>,
         \<lparr>tag_id = 3, tag_name = ''c'', tag_userId = ''v''\<rparr>],
      users = [''u'', ''v''],
      userBookmarks_seq = 2\<rparr>"

text \<open>
  A public store for the examples: the tags 1, 2 and 3, and the bookmark 1, which carries
  the tags 1 and 2.
\<close>

definition exampleBookmark :: Bookmark where
  "exampleBookmark =
     \<lparr>id' = 1, name = ''one'', url = ''http://one'', pinyin = ''one'',
      sortOrder = Some 1, createdAt = Some 1000, updatedAt = Some 1000\<rparr>"

definition examplePublicDb :: PublicDb where
  "examplePublicDb =
     \<lparr>publicBookmarks = [exampleBookmark],
      publicBookmarkToTag = [\<lparr>bId = 1, tId = 1\<rparr>, \<lparr>bId = 1, tId = 2\<rparr>],
      publicTags =
        [\<lparr>tag_id = 1, tag_name = ''a''\<rparr>, \<lparr>tag_id = 2, tag_name = ''b''\<rparr>,
         \<lparr>tag_id = 3, tag_name = ''c''\<rparr>],
      publicBookmarks_seq = 2\<rparr>"

text \<open>
  The public example store with its tags removed: the join rows of bookmark 1 now name
  tags that are not in the fetched tag set.
\<close>

definition danglingPublicDb :: PublicDb where
  "danglingPublicDb = examplePublicDb\<lparr>publicTags := []\<rparr>"

text \<open>
  The export's folders, stated directly: the bucket of a map (empty when the key is
  missing), the items whose tag-id list names tag \<open>t\<close> (once per occurrence, in list
  order), and the items whose tag-id list is empty.
\<close>

definition bucket :: "(TagId \<Rightarrow> BookmarkHtmlItem list option) \<Rightarrow> TagId \<Rightarrow> BookmarkHtmlItem list" where
  "bucket m t = (case m t of None \<Rightarrow> [] | Some arr \<Rightarrow> arr)"

definition itemsOfTag :: "TagId \<Rightarrow> (BookmarkHtmlItem \<times> TagId list) list \<Rightarrow> BookmarkHtmlItem list" where
  "itemsOfTag t bs = concat (map (\<lambda>(item, ids). replicate (count_list ids t) item) bs)"

definition untaggedItems :: "(BookmarkHtmlItem \<times> TagId list) list \<Rightarrow> BookmarkHtmlItem list" where
  "untaggedItems bs = map fst (filter (\<lambda>(item, ids). ids = []) bs)"

definition folderOfTag ::
  "(BookmarkHtmlItem \<times> TagId list) list \<Rightarrow> 'a Tag_scheme \<Rightarrow> BookmarkHtmlFolder list" where
  "folderOfTag bs t =
     (if itemsOfTag (tag_id t) bs = [] then []
      else [\<lparr>folder_name = tag_name t, folder_bookmarks = itemsOfTag (tag_id t) bs\<rparr>])"

text \<open>A displayed bookmark with id \<open>i\<close> and order \<open>ord\<close>.\<close>

definition bookmarkWithOrder :: "BookmarkId \<Rightarrow> int \<Rightarrow> Bookmark" where
  "bookmarkWithOrder i ord =
     \<lparr>id' = i, name = ''n'', url = ''http://n'', pinyin = ''n'', sortOrder = Some ord,
      createdAt = None, updatedAt = None\<rparr>"



text \<open>A clock that shows \<open>t\<close> at every reading.\<close>

definition clockAt :: "int \<Rightarrow> Clock" where
  "clockAt t k = t"

text \<open>A query for the tag ids \<open>ids\<close> alone: first page, manual order.\<close>

definition exampleQuery :: "TagId list \<Rightarrow> FindManyQuery" where
  "exampleQuery ids =
     \<lparr>keyword = [], tagIds = ids, tagNames = None, page = 1, limit = 20,
      sorterKey = ''manual''\<rparr>"

section \<open>Properties\<close>

lemma set_onConflictDoNothing: "set (onConflictDoNothing tbl rows) = set tbl \<union> set rows"
  unfolding onConflictDoNothing_def
  by (induction rows arbitrary: tbl) auto

subsection \<open>fullSetBookmarkToTag\<close>

lemma onConflictDoNothing_id: "set rows \<subseteq> set tbl \<Longrightarrow> onConflictDoNothing tbl rows = tbl"
  unfolding onConflictDoNothing_def
  by (induction rows arbitrary: tbl) auto

lemma delete_where_id: "(\<And>r. r \<in> set tbl \<Longrightarrow> \<not> p r) \<Longrightarrow> delete_where p tbl = tbl"
  unfolding delete_where_def by (induction tbl) auto

lemma rowsFor_fullSet:
  "rowsFor (delete_where (\<lambda>r. bId r = b \<and> tId r \<notin> set T)
              (onConflictDoNothing tbl (map (\<lambda>t. \<lparr>bId = b, tId = t\<rparr>) T))) b = pairsOf b T"
proof -
  have rec: "tId x \<in> set T \<Longrightarrow> \<exists>t\<in>set T. x = \<lparr>bId = bId x, tId = t\<rparr>" for x :: BookmarkToTag
    by (rule bexI [of _ "tId x"]) simp_all
  show ?thesis
    unfolding rowsFor_def pairsOf_def delete_where_def
    by (auto simp: set_onConflictDoNothing image_iff rec)
qed

lemma rowsFor_delete_all:
  "rowsFor (delete_where (\<lambda>r. bId r = b \<and> tId r \<notin> set []) tbl) b = pairsOf b []"
  unfolding rowsFor_def pairsOf_def delete_where_def by auto

lemma fullSet_tbl_fixed:
  assumes "rowsFor tbl b = pairsOf b T"
  shows "delete_where (\<lambda>r. bId r = b \<and> tId r \<notin> set T)
           (onConflictDoNothing tbl (map (\<lambda>t. \<lparr>bId = b, tId = t\<rparr>) T)) = tbl"
proof -
  have sub: "set (map (\<lambda>t. \<lparr>bId = b, tId = t\<rparr>) T) \<subseteq> set tbl"
    using assms unfolding rowsFor_def pairsOf_def by auto
  have keep: "\<And>r. r \<in> set tbl \<Longrightarrow> \<not> (bId r = b \<and> tId r \<notin> set T)"
  proof
    fix r assume r: "r \<in> set tbl" and bad: "bId r = b \<and> tId r \<notin> set T"
    then have "r \<in> rowsFor tbl b" unfolding rowsFor_def by simp
    then have "r \<in> pairsOf b T" using assms by simp
    then show False using bad unfolding pairsOf_def by auto
  qed
  show ?thesis
    by (simp only: onConflictDoNothing_id [OF sub] delete_where_id [of tbl, OF keep])
qed

lemma filterUserTagIds_table [simp]:
  "filterUserTagIds (db\<lparr>userBookmarkToTag := tbl\<rparr>) uid T = filterUserTagIds db uid T"
  by (simp add: filterUserTagIds_def)

lemma Public_fullSet_rows:
  assumes "T \<noteq> []"
  shows "\<exists>db'. PublicBookmark_fullSetBookmarkToTag db b T = Inr db' \<and>
               rowsFor (publicBookmarkToTag db') b = pairsOf b T \<and>
               PublicBookmark_fullSetBookmarkToTag db' b T = Inr db'"
  using assms
  by (simp add: PublicBookmark_fullSetBookmarkToTag_def insert_values_onConflictDoNothing_def
      rowsFor_fullSet fullSet_tbl_fixed)

lemma User_fullSet_rows:
  assumes "T \<noteq> []" and "getAuthedUserId session (users db) = Inr uid"
  shows "\<exists>db'. UserBookmark_fullSetBookmarkToTag session db b (Some T) = Inr db' \<and>
               rowsFor (userBookmarkToTag db') b = pairsOf b (filterUserTagIds db uid T) \<and>
               UserBookmark_fullSetBookmarkToTag session db' b (Some T) = Inr db'"
proof (cases "filterUserTagIds db uid T = []")
  case True
  have fix0: "delete_where (\<lambda>r. bId r = b) (delete_where (\<lambda>r. bId r = b) tbl) = delete_where (\<lambda>r. bId r = b) tbl" for tbl :: "BookmarkToTag list"
    unfolding delete_where_def by simp
  show ?thesis using assms True rowsFor_delete_all [of b "userBookmarkToTag db"]
    by (simp add: UserBookmark_fullSetBookmarkToTag_def Let_def fix0)
next
  case False
  then show ?thesis using assms
    by (simp add: UserBookmark_fullSetBookmarkToTag_def Let_def insert_values_onConflictDoNothing_def
      rowsFor_fullSet fullSet_tbl_fixed)
qed

text \<open>
  The two statements of the public variant may reach the store in either order: the
  delete first and the insert second leave the same rows.
\<close>

lemma fullSet_order_independent:
  "set (delete_where (\<lambda>r. bId r = b \<and> tId r \<notin> set T)
          (onConflictDoNothing tbl (map (\<lambda>t. \<lparr>bId = b, tId = t\<rparr>) T))) =
   set (onConflictDoNothing (delete_where (\<lambda>r. bId r = b \<and> tId r \<notin> set T) tbl)
          (map (\<lambda>t. \<lparr>bId = b, tId = t\<rparr>) T))"
  unfolding delete_where_def by (auto simp: set_onConflictDoNothing)

text \<open>
  Claim C1, as amended. For every bookmark id \<open>b\<close> and every non-empty list \<open>T\<close> of tag
  ids: the public \<open>fullSet(b, T)\<close> succeeds and leaves the join rows of \<open>b\<close> exactly
  \<open>{(b, t) : t \<in> T}\<close>; the user \<open>fullSet(b, T)\<close>, under a valid session, succeeds and
  leaves them exactly \<open>{(b, t) : t \<in> T, t owned by the requesting user}\<close>. In both scopes
  a second call with the same \<open>T\<close> changes nothing, and in the public scope
  \<open>fullSet(b, T)\<close> followed by \<open>fullSet(b, T')\<close> leaves exactly the rows of \<open>T'\<close>
  (\<open>{1,2}\<close> then \<open>{2,3}\<close> leaves \<open>{2,3}\<close>).
\<close>

theorem C1_fullSet_rows:
  assumes "T \<noteq> []"
  shows "(\<exists>db'. PublicBookmark_fullSetBookmarkToTag db b T = Inr db' \<and>
               rowsFor (publicBookmarkToTag db') b = pairsOf b T \<and>
               PublicBookmark_fullSetBookmarkToTag db' b T = Inr db') \<and>
         (T' \<noteq> [] \<longrightarrow>
            (\<exists>db1 db2. PublicBookmark_fullSetBookmarkToTag db b T = Inr db1 \<and>
               PublicBookmark_fullSetBookmarkToTag db1 b T' = Inr db2 \<and>
               rowsFor (publicBookmarkToTag db2) b = pairsOf b T')) \<and>
         (getAuthedUserId session (users udb) = Inr uid \<longrightarrow>
            (\<exists>udb'. UserBookmark_fullSetBookmarkToTag session udb b (Some T) = Inr udb' \<and>
               rowsFor (userBookmarkToTag udb') b = pairsOf b (filterUserTagIds udb uid T) \<and>
               UserBookmark_fullSetBookmarkToTag session udb' b (Some T) = Inr udb'))"
proof (intro conjI impI)
  show "\<exists>db'. PublicBookmark_fullSetBookmarkToTag db b T = Inr db' \<and>
               rowsFor (publicBookmarkToTag db') b = pairsOf b T \<and>
               PublicBookmark_fullSetBookmarkToTag db' b T = Inr db'"
    by (rule Public_fullSet_rows [OF assms])
next
  assume T': "T' \<noteq> []"
  obtain db1 where 1: "PublicBookmark_fullSetBookmarkToTag db b T = Inr db1"
    using Public_fullSet_rows [OF assms, of db b] by blast
  obtain db2 where 2: "PublicBookmark_fullSetBookmarkToTag db1 b T' = Inr db2"
      and 3: "rowsFor (publicBookmarkToTag db2) b = pairsOf b T'"
    using Public_fullSet_rows [OF T', of db1 b] by blast
  show "\<exists>db1 db2. PublicBookmark_fullSetBookmarkToTag db b T = Inr db1 \<and>
               PublicBookmark_fullSetBookmarkToTag db1 b T' = Inr db2 \<and>
               rowsFor (publicBookmarkToTag db2) b = pairsOf b T'"
    using 1 2 3 by blast
next
  assume "getAuthedUserId session (users udb) = Inr uid"
  then show "\<exists>udb'. UserBookmark_fullSetBookmarkToTag session udb b (Some T) = Inr udb' \<and>
               rowsFor (userBookmarkToTag udb') b = pairsOf b (filterUserTagIds udb uid T) \<and>
               UserBookmark_fullSetBookmarkToTag session udb' b (Some T) = Inr udb'"
    by (rule User_fullSet_rows [OF assms])
qed

text \<open>
  The theorem at \<open>T = [1, 2]\<close>, \<open>T' = [2, 3]\<close> and bookmark 1 of the example stores,
  where user \<open>u\<close> owns both tags.
\<close>

theorem C1_fullSet_rows_witness:
  "[1, 2] \<noteq> ([] :: TagId list) \<and> [2, 3] \<noteq> ([] :: TagId list) \<and>
   getAuthedUserId (sessionOf ''u'') (users exampleUserDb) = Inr ''u'' \<and>
   filterUserTagIds exampleUserDb ''u'' [1, 2] = [1, 2] \<and>
   (\<exists>db1 db2. PublicBookmark_fullSetBookmarkToTag examplePublicDb 1 [1, 2] = Inr db1 \<and>
      PublicBookmark_fullSetBookmarkToTag db1 1 [2, 3] = Inr db2 \<and>
      rowsFor (publicBookmarkToTag db2) 1 = {\<lparr>bId = 1, tId = 2\<rparr>, \<lparr>bId = 1, tId = 3\<rparr>}) \<and>
   (\<exists>udb'. UserBookmark_fullSetBookmarkToTag (sessionOf ''u'') exampleUserDb 1 (Some [1, 2]) = Inr udb' \<and>
      rowsFor (userBookmarkToTag udb') 1 = {\<lparr>bId = 1, tId = 1\<rparr>, \<lparr>bId = 1, tId = 2\<rparr>} \<and>
      UserBookmark_fullSetBookmarkToTag (sessionOf ''u'') udb' 1 (Some [1, 2]) = Inr udb')"
proof -
  have a: "getAuthedUserId (sessionOf ''u'') (users exampleUserDb) = Inr ''u''"
    by (simp add: getAuthedUserId_def sessionOf_def exampleUserDb_def)
  have f: "filterUserTagIds exampleUserDb ''u'' [1, 2] = [1, 2]"
    by (simp add: filterUserTagIds_def exampleUserDb_def)
  show ?thesis
    using C1_fullSet_rows [of "[1, 2]" examplePublicDb 1 "[2, 3]" "sessionOf ''u''" exampleUserDb "''u''"]
    by (simp add: a f pairsOf_def insert_commute)
qed

text \<open>
  Claim C1 as stated fails in the user scope: user \<open>u\<close> does not own tag 3, and
  \<open>fullSet(1, [1, 3])\<close> leaves the single row \<open>(1, 1)\<close>.
\<close>

theorem C1_counterexample:
  "UserBookmark_fullSetBookmarkToTag (sessionOf ''u'') exampleUserDb 1 (Some [1, 3]) =
     Inr (exampleUserDb\<lparr>userBookmarkToTag := [\<lparr>bId = 1, tId = 1\<rparr>]\<rparr>) \<and>
   rowsFor [\<lparr>bId = 1, tId = 1\<rparr>] 1 \<noteq> pairsOf 1 [1, 3]"
  by (simp add: UserBookmark_fullSetBookmarkToTag_def getAuthedUserId_def sessionOf_def
      exampleUserDb_def filterUserTagIds_def insert_values_onConflictDoNothing_def
      onConflictDoNothing_def delete_where_def rowsFor_def pairsOf_def)

text \<open>
  Claim C6. With an empty (or absent) list of tag ids the user variant returns the store
  as it is. The public variant, given an empty list, raises in \<^verbatim>\<open>values\<close>: nothing is
  deleted.
\<close>

theorem C6_fullSet_empty:
  "UserBookmark_fullSetBookmarkToTag session udb b (Some []) = Inr udb \<and>
   UserBookmark_fullSetBookmarkToTag session udb b None = Inr udb \<and>
   PublicBookmark_fullSetBookmarkToTag db b [] = Inl EmptyValues"
  by (simp add: UserBookmark_fullSetBookmarkToTag_def PublicBookmark_fullSetBookmarkToTag_def
      insert_values_onConflictDoNothing_def)

subsection \<open>findMany\<close>

lemma findTargetBIds_superset:
  assumes "b \<in> set (findTargetBIds tbl ids)"
  shows "set ids \<subseteq> set (relatedTagIds tbl b)"
proof -
  let ?matched = "filter (\<lambda>r. tId r \<in> set ids) tbl"
  let ?ts = "relatedTagIds ?matched b"
  have len: "length (remdups ?ts) = length ids"
    using assms by (auto simp: findTargetBIds_def Let_def)
  have sub: "set ?ts \<subseteq> set ids"
    by (auto simp: relatedTagIds_def)
  have "card (set ?ts) = length ids"
    using len by (simp add: length_remdups_card_conv)
  moreover have "card (set ids) \<le> length ids"
    by (rule card_length)
  moreover have "card (set ?ts) \<le> card (set ids)"
    using sub by (simp add: card_mono)
  ultimately have "card (set ?ts) = card (set ids)"
    by linarith
  then have "set ?ts = set ids"
    using sub by (simp add: card_subset_eq)
  moreover have "set ?ts \<subseteq> set (relatedTagIds tbl b)"
    by (auto simp: relatedTagIds_def)
  ultimately show ?thesis by simp
qed

lemma set_orderBy: "set (orderBy key rows) = set rows"
  by (simp add: orderBy_def orderBy_manual_def Let_def)

lemma set_paginate: "set (paginate pg lim rows) \<subseteq> set rows"
  unfolding paginate_def
  by (meson set_take_subset set_drop_subset subset_trans)

lemma in_page_matches:
  "r \<in> set (paginate pg lim (orderBy key (filter p rows))) \<Longrightarrow> p r \<and> r \<in> set rows"
  using set_paginate [of pg lim "orderBy key (filter p rows)"] by (auto simp: set_orderBy)

text \<open>
  Claim C2, as amended. In the public scope, for every query whose resolved tag ids
  (\<open>tagIds\<close> with the ids of the resolved \<open>tagNames\<close>) are not empty, every row
  \<open>findMany\<close> returns carries its related tag ids, and these include every resolved tag
  id. In the user scope the resolved ids are first reduced to those the requesting user
  owns (\<open>newTagIds\<close>); when that list is not empty, every row returned belongs to the
  user and its related tag ids include every id of \<open>newTagIds\<close>.
\<close>

theorem C2_findMany_tag_superset:
  "(PublicBookmark_resolvedTagIds db q \<noteq> [] \<and>
    (r, ts) \<in> set (list' (PublicBookmark_findMany db q)) \<longrightarrow>
      ts = relatedTagIds (publicBookmarkToTag db) (id' r) \<and>
      set (PublicBookmark_resolvedTagIds db q) \<subseteq> set ts) \<and>
   (getAuthedUserId session (users udb) = Inr uid \<and>
    UserBookmark_newTagIds udb uid q \<noteq> [] \<and>
    UserBookmark_findMany session udb q = Inr res \<and>
    (ur, uts) \<in> set (list' res) \<longrightarrow>
      uts = relatedTagIds (userBookmarkToTag udb) (id' ur) \<and> userId ur = uid \<and>
      set (UserBookmark_newTagIds udb uid q) \<subseteq> set uts)"
proof (rule conjI; rule impI)
  assume h: "PublicBookmark_resolvedTagIds db q \<noteq> [] \<and>
    (r, ts) \<in> set (list' (PublicBookmark_findMany db q))"
  then have ts: "ts = relatedTagIds (publicBookmarkToTag db) (id' r)"
    and "r \<in> set (paginate (page q) (limit q)
           (orderBy (sorterKey q) (filter (PublicBookmark_getFilters db q) (publicBookmarks db))))"
    by (auto simp: PublicBookmark_findMany_def Let_def)
  then have "PublicBookmark_getFilters db q r"
    using in_page_matches by blast
  then have "id' r \<in> set (findTargetBIds (publicBookmarkToTag db) (PublicBookmark_resolvedTagIds db q))"
    using h by (simp add: PublicBookmark_getFilters_def)
  then have "set (PublicBookmark_resolvedTagIds db q) \<subseteq> set ts"
    unfolding ts by (rule findTargetBIds_superset)
  with ts show "ts = relatedTagIds (publicBookmarkToTag db) (id' r) \<and>
      set (PublicBookmark_resolvedTagIds db q) \<subseteq> set ts" by simp
next
  assume h: "getAuthedUserId session (users udb) = Inr uid \<and>
    UserBookmark_newTagIds udb uid q \<noteq> [] \<and>
    UserBookmark_findMany session udb q = Inr res \<and>
    (ur, uts) \<in> set (list' res)"
  then have res: "res = \<lparr>total' = length (filter (UserBookmark_getFilters udb uid q) (userBookmarks udb)),
       hasMore = (int (length (filter (UserBookmark_getFilters udb uid q) (userBookmarks udb))) > page q * limit q),
       list' = map (\<lambda>r. (r, relatedTagIds (userBookmarkToTag udb) (id' r)))
          (paginate (page q) (limit q) (orderBy (sorterKey q)
             (filter (UserBookmark_getFilters udb uid q) (userBookmarks udb))))\<rparr>"
    by (auto simp: UserBookmark_findMany_def Let_def)
  from h have "(ur, uts) \<in> set (list' res)" by simp
  then have uts: "uts = relatedTagIds (userBookmarkToTag udb) (id' ur)"
    and "ur \<in> set (paginate (page q) (limit q) (orderBy (sorterKey q)
             (filter (UserBookmark_getFilters udb uid q) (userBookmarks udb))))"
    unfolding res by auto
  then have f: "UserBookmark_getFilters udb uid q ur"
    using in_page_matches by blast
  then have "id' ur \<in> set (findTargetBIds (userBookmarkToTag udb) (UserBookmark_newTagIds udb uid q))"
    using h by (simp add: UserBookmark_getFilters_def)
  then have "set (UserBookmark_newTagIds udb uid q) \<subseteq> set uts"
    unfolding uts by (rule findTargetBIds_superset)
  moreover have "userId ur = uid"
    using f by (simp add: UserBookmark_getFilters_def userLimiter_def)
  ultimately show "uts = relatedTagIds (userBookmarkToTag udb) (id' ur) \<and> userId ur = uid \<and>
      set (UserBookmark_newTagIds udb uid q) \<subseteq> set uts"
    using uts by simp
qed

text \<open>
  The theorem on the example stores: the query for \<open>[1, 2]\<close> returns bookmark 1, tagged
  with exactly \<open>{1, 2}\<close>, in both scopes; the public query for \<open>[1, 3]\<close> excludes it.
\<close>

theorem C2_findMany_tag_superset_witness:
  "PublicBookmark_resolvedTagIds examplePublicDb (exampleQuery [1, 2]) = [1, 2] \<and>
   (exampleBookmark, [1, 2]) \<in> set (list' (PublicBookmark_findMany examplePublicDb (exampleQuery [1, 2]))) \<and>
   set (PublicBookmark_resolvedTagIds examplePublicDb (exampleQuery [1, 2])) \<subseteq> set [1, 2] \<and>
   (exampleBookmark, [1, 2]) \<notin> set (list' (PublicBookmark_findMany examplePublicDb (exampleQuery [1, 3]))) \<and>
   getAuthedUserId (sessionOf ''u'') (users exampleUserDb) = Inr ''u'' \<and>
   UserBookmark_newTagIds exampleUserDb ''u'' (exampleQuery [1, 2]) = [1, 2] \<and>
   UserBookmark_findMany (sessionOf ''u'') exampleUserDb (exampleQuery [1, 2]) =
     Inr \<lparr>total' = 1, hasMore = False, list' = [(exampleUserBookmark, [1, 2])]\<rparr> \<and>
   set (UserBookmark_newTagIds exampleUserDb ''u'' (exampleQuery [1, 2])) \<subseteq> set [1, 2]"
proof -
  have p1: "PublicBookmark_resolvedTagIds examplePublicDb (exampleQuery [1, 2]) = [1, 2]"
    and p3: "PublicBookmark_resolvedTagIds examplePublicDb (exampleQuery [1, 3]) = [1, 3]"
    by (simp_all add: PublicBookmark_resolvedTagIds_def resolveTagNames_def exampleQuery_def)
  have p2: "(exampleBookmark, [1, 2]) \<in>
      set (list' (PublicBookmark_findMany examplePublicDb (exampleQuery [1, 2])))"
    by (simp add: PublicBookmark_findMany_def PublicBookmark_getFilters_def
        PublicBookmark_resolvedTagIds_def resolveTagNames_def findTargetBIds_def relatedTagIds_def
        orderBy_def orderBy_manual_def paginate_def examplePublicDb_def exampleQuery_def
        exampleBookmark_def Let_def)
  have u1: "getAuthedUserId (sessionOf ''u'') (users exampleUserDb) = Inr ''u''"
    by (simp add: getAuthedUserId_def sessionOf_def exampleUserDb_def)
  have u2: "UserBookmark_newTagIds exampleUserDb ''u'' (exampleQuery [1, 2]) = [1, 2]"
    by (simp add: UserBookmark_newTagIds_def UserBookmark_resolvedTagIds_def filterUserTagIds_def
        resolveTagNames_def exampleUserDb_def exampleQuery_def)
  have u3: "UserBookmark_findMany (sessionOf ''u'') exampleUserDb (exampleQuery [1, 2]) =
     Inr \<lparr>total' = 1, hasMore = False, list' = [(exampleUserBookmark, [1, 2])]\<rparr>"
    by (simp add: UserBookmark_findMany_def UserBookmark_getFilters_def UserBookmark_newTagIds_def
        UserBookmark_resolvedTagIds_def filterUserTagIds_def userLimiter_def getAuthedUserId_def
        resolveTagNames_def findTargetBIds_def relatedTagIds_def orderBy_def orderBy_manual_def
        paginate_def exampleUserDb_def exampleQuery_def sessionOf_def exampleUserBookmark_def Let_def)
  note inst = C2_findMany_tag_superset [where session = "sessionOf ''u''" and udb = exampleUserDb
      and uid = "''u''" and ur = exampleUserBookmark and uts = "[1, 2]" and r = exampleBookmark
      and ts = "[1, 2]" and db = examplePublicDb
      and res = "\<lparr>total' = 1, hasMore = False, list' = [(exampleUserBookmark, [1, 2])]\<rparr>"]
  have a: "set (PublicBookmark_resolvedTagIds examplePublicDb (exampleQuery [1, 2])) \<subseteq> set [1, 2]"
    and b: "set (UserBookmark_newTagIds exampleUserDb ''u'' (exampleQuery [1, 2])) \<subseteq> set [1, 2]"
    using inst [where q = "exampleQuery [1, 2]"] p1 p2 u1 u2 u3 by simp_all
  have c: "(exampleBookmark, [1, 2]) \<notin>
      set (list' (PublicBookmark_findMany examplePublicDb (exampleQuery [1, 3])))"
    using inst [where q = "exampleQuery [1, 3]"] p3 by auto
  show ?thesis using p1 p2 a c u1 u2 u3 b by blast
qed

text \<open>
  Claim C2 as stated fails in the user scope: user \<open>u\<close> does not own tag 3, the query
  for \<open>[1, 3]\<close> is reduced to \<open>[1]\<close>, and the bookmark tagged with exactly \<open>{1, 2}\<close> is
  returned.
\<close>

theorem C2_counterexample:
  "UserBookmark_findMany (sessionOf ''u'') exampleUserDb (exampleQuery [1, 3]) =
     Inr \<lparr>total' = 1, hasMore = False, list' = [(exampleUserBookmark, [1, 2])]\<rparr> \<and>
   \<not> set [1, 3 :: TagId] \<subseteq> set [1, 2]"
  by (simp add: UserBookmark_findMany_def UserBookmark_getFilters_def UserBookmark_newTagIds_def
     UserBookmark_resolvedTagIds_def filterUserTagIds_def userLimiter_def getAuthedUserId_def
     resolveTagNames_def findTargetBIds_def relatedTagIds_def orderBy_def orderBy_manual_def paginate_def
     exampleUserDb_def exampleQuery_def sessionOf_def exampleUserBookmark_def Let_def)

subsection \<open>deleteMany\<close>

text \<open>
  Claim C10. For every non-empty list \<open>ids\<close>, \<open>deleteMany\<close> returns
  \<open>deleted = ids.length\<close> in both scopes (the user scope under a valid session), whatever
  the ids match; on the example store the ids \<open>[1, 99]\<close> give \<open>deleted = 2\<close> while one row
  is deleted.
\<close>

theorem C10_deleteMany_count:
  assumes "ids \<noteq> []"
  shows "snd (PublicBookmark_deleteMany db ids) = length ids \<and>
         (getAuthedUserId session (users udb) = Inr uid \<longrightarrow>
            (\<exists>udb'. UserBookmark_deleteMany session udb ids = Inr (udb', length ids))) \<and>
         snd (PublicBookmark_deleteMany examplePublicDb [1, 99]) >
           length (publicBookmarks examplePublicDb) -
           length (publicBookmarks (fst (PublicBookmark_deleteMany examplePublicDb [1, 99])))"
  using assms
  by (simp add: PublicBookmark_deleteMany_def UserBookmark_deleteMany_def delete_where_def
      examplePublicDb_def exampleBookmark_def)

text \<open>
  The theorem at \<open>ids = [1, 99]\<close>: the public store loses its one bookmark; user \<open>v\<close>
  owns neither id, so the user store is unchanged, and both calls report 2.
\<close>

theorem C10_deleteMany_count_witness:
  "[1, 99] \<noteq> ([] :: BookmarkId list) \<and>
   PublicBookmark_deleteMany examplePublicDb [1, 99] = (examplePublicDb\<lparr>publicBookmarks := []\<rparr>, 2) \<and>
   getAuthedUserId (sessionOf ''v'') (users exampleUserDb) = Inr ''v'' \<and>
   UserBookmark_deleteMany (sessionOf ''v'') exampleUserDb [1, 99] = Inr (exampleUserDb, 2)"
proof -
  have a: "getAuthedUserId (sessionOf ''v'') (users exampleUserDb) = Inr ''v''"
    by (simp add: getAuthedUserId_def sessionOf_def exampleUserDb_def)
  have p: "fst (PublicBookmark_deleteMany examplePublicDb [1, 99]) = examplePublicDb\<lparr>publicBookmarks := []\<rparr>"
    by (simp add: PublicBookmark_deleteMany_def delete_where_def examplePublicDb_def exampleBookmark_def)
  have u: "UserBookmark_deleteMany (sessionOf ''v'') exampleUserDb [1, 99] = Inr (exampleUserDb, 2)"
    by (simp add: UserBookmark_deleteMany_def getAuthedUserId_def sessionOf_def delete_where_def
        userLimiter_def exampleUserDb_def exampleUserBookmark_def)
  show ?thesis
    using C10_deleteMany_count [of "[1, 99]" examplePublicDb "sessionOf ''v''" exampleUserDb "''v''"] a p u
    by (auto simp: prod_eq_iff)
qed

subsection \<open>insert\<close>

lemma users_after_insert [simp]:
  "users (db\<lparr>userBookmarks := rows, userBookmarks_seq := n\<rparr>) = users db"
  by simp

lemma User_fullSet_succeeds:
  assumes "getAuthedUserId session (users db) = Inr uid"
  shows "\<exists>db'. UserBookmark_fullSetBookmarkToTag session db b ts = Inr db'"
  using assms
  by (simp add: UserBookmark_fullSetBookmarkToTag_def Let_def insert_values_onConflictDoNothing_def
      split: option.splits)

lemma Public_insert_dup:
  "PublicBookmark_insert gp now db bm = Inl e \<longleftrightarrow>
     e = BookmarkExists \<and> (\<exists>r\<in>set (publicBookmarks db). url r = new_url bm \<or> name r = new_name bm)"
  by (auto simp: PublicBookmark_insert_def Let_def filter_empty_conv
      PublicBookmark_fullSetBookmarkToTag_def insert_values_onConflictDoNothing_def
      split: option.splits sum.splits)

lemma User_insert_dup:
  assumes "getAuthedUserId session (users db) = Inr uid"
  shows "UserBookmark_insert gp now session db bm = Inl e \<longleftrightarrow>
     e = SameUrlOrNameExists \<and>
     (\<exists>r\<in>set (userBookmarks db). userId r = uid \<and> (url r = new_url bm \<or> name r = new_name bm))"
proof -
  let ?db1 = "db\<lparr>userBookmarks := userBookmarks db @
        [\<lparr>id' = userBookmarks_seq db, name = new_name bm, url = new_url bm,
          pinyin = pinyin_or gp (new_pinyin bm) (new_name bm), sortOrder = new_sortOrder bm,
          createdAt = Some now, updatedAt = Some now, userId = uid\<rparr>],
        userBookmarks_seq := userBookmarks_seq db + 1\<rparr>"
  have "getAuthedUserId session (users ?db1) = Inr uid" using assms by simp
  then obtain db2 where
    "UserBookmark_fullSetBookmarkToTag session ?db1 (userBookmarks_seq db) (new_relatedTagIds bm) = Inr db2"
    using User_fullSet_succeeds by blast
  then show ?thesis using assms
    by (auto simp: UserBookmark_insert_def Let_def filter_empty_conv)
qed

text \<open>
  Claim C5. The public \<open>insert\<close> fails with the duplicate error exactly when some
  existing public bookmark has the same url or the same name (equality of strings), and
  it succeeds when every existing bookmark differs in url and in name. The user
  \<open>insert\<close>, under a valid session, fails with the duplicate error exactly when some
  bookmark of the same owner has the same url or the same name, and succeeds when every
  bookmark of that owner differs in both. \<open>insert\<close> raises no other error here.
\<close>

theorem C5_insert_duplicate_iff:
  "(PublicBookmark_insert gp now db bm = Inl BookmarkExists \<longleftrightarrow>
      (\<exists>r\<in>set (publicBookmarks db). url r = new_url bm \<or> name r = new_name bm)) \<and>
   ((\<forall>r\<in>set (publicBookmarks db). url r \<noteq> new_url bm \<and> name r \<noteq> new_name bm) \<longrightarrow>
      (\<exists>db' row. PublicBookmark_insert gp now db bm = Inr (db', row))) \<and>
   (getAuthedUserId session (users udb) = Inr uid \<longrightarrow>
      (UserBookmark_insert gp now session udb bm = Inl SameUrlOrNameExists \<longleftrightarrow>
         (\<exists>r\<in>set (userBookmarks udb).
            userId r = uid \<and> (url r = new_url bm \<or> name r = new_name bm))) \<and>
      ((\<forall>r\<in>set (userBookmarks udb).
           userId r = uid \<longrightarrow> url r \<noteq> new_url bm \<and> name r \<noteq> new_name bm) \<longrightarrow>
         (\<exists>udb' row. UserBookmark_insert gp now session udb bm = Inr (udb', row))))"
proof (intro conjI impI)
  show "PublicBookmark_insert gp now db bm = Inl BookmarkExists \<longleftrightarrow>
      (\<exists>r\<in>set (publicBookmarks db). url r = new_url bm \<or> name r = new_name bm)"
    by (simp add: Public_insert_dup)
next
  assume "\<forall>r\<in>set (publicBookmarks db). url r \<noteq> new_url bm \<and> name r \<noteq> new_name bm"
  then have "\<And>e. PublicBookmark_insert gp now db bm \<noteq> Inl e"
    by (auto simp: Public_insert_dup)
  then show "\<exists>db' row. PublicBookmark_insert gp now db bm = Inr (db', row)"
    by (cases "PublicBookmark_insert gp now db bm") auto
next
  assume "getAuthedUserId session (users udb) = Inr uid"
  then show "UserBookmark_insert gp now session udb bm = Inl SameUrlOrNameExists \<longleftrightarrow>
         (\<exists>r\<in>set (userBookmarks udb).
            userId r = uid \<and> (url r = new_url bm \<or> name r = new_name bm))"
    by (simp add: User_insert_dup)
next
  assume a: "getAuthedUserId session (users udb) = Inr uid"
    and "\<forall>r\<in>set (userBookmarks udb).
           userId r = uid \<longrightarrow> url r \<noteq> new_url bm \<and> name r \<noteq> new_name bm"
  then have "\<And>e. UserBookmark_insert gp now session udb bm \<noteq> Inl e"
    by (auto simp: User_insert_dup [OF a])
  then show "\<exists>udb' row. UserBookmark_insert gp now session udb bm = Inr (udb', row)"
    by (cases "UserBookmark_insert gp now session udb bm") auto
qed

text \<open>
  The theorem on the example stores, with \<open>getPinyin\<close> the identity: the name
  \<open>one\<close> is taken, \<open>ONE\<close> with a new url is not (the match is case-sensitive); user
  \<open>u\<close> cannot reuse the url, user \<open>v\<close> can reuse both name and url of \<open>u\<close>'s bookmark.
\<close>

theorem C5_insert_duplicate_iff_witness:
  "PublicBookmark_insert id 5 examplePublicDb
     \<lparr>new_name = ''one'', new_url = ''http://other'', new_pinyin = None, new_sortOrder = None,
      new_relatedTagIds = None\<rparr> = Inl BookmarkExists \<and>
   (\<exists>db' row. PublicBookmark_insert id 5 examplePublicDb
     \<lparr>new_name = ''ONE'', new_url = ''http://ONE'', new_pinyin = None, new_sortOrder = None,
      new_relatedTagIds = Some [1]\<rparr> = Inr (db', row)) \<and>
   getAuthedUserId (sessionOf ''u'') (users exampleUserDb) = Inr ''u'' \<and>
   getAuthedUserId (sessionOf ''v'') (users exampleUserDb) = Inr ''v'' \<and>
   UserBookmark_insert id 5 (sessionOf ''u'') exampleUserDb
     \<lparr>new_name = ''other'', new_url = ''http://one'', new_pinyin = None, new_sortOrder = None,
      new_relatedTagIds = None\<rparr> = Inl SameUrlOrNameExists \<and>
   (\<exists>udb' row. UserBookmark_insert id 5 (sessionOf ''v'') exampleUserDb
     \<lparr>new_name = ''one'', new_url = ''http://one'', new_pinyin = None, new_sortOrder = None,
      new_relatedTagIds = None\<rparr> = Inr (udb', row))"
proof -
  have u: "getAuthedUserId (sessionOf ''u'') (users exampleUserDb) = Inr ''u''"
    and v: "getAuthedUserId (sessionOf ''v'') (users exampleUserDb) = Inr ''v''"
    by (simp_all add: getAuthedUserId_def sessionOf_def exampleUserDb_def)
  have rows: "publicBookmarks examplePublicDb = [exampleBookmark]"
    "userBookmarks exampleUserDb = [exampleUserBookmark]"
    by (simp_all add: examplePublicDb_def exampleUserDb_def)
  have flds: "name exampleBookmark = ''one''" "url exampleBookmark = ''http://one''"
    "name exampleUserBookmark = ''one''" "url exampleUserBookmark = ''http://one''"
    "userId exampleUserBookmark = ''u''"
    by (simp_all add: exampleBookmark_def exampleUserBookmark_def)
  show ?thesis
    using
      C5_insert_duplicate_iff [of id 5 examplePublicDb
        "\<lparr>new_name = ''one'', new_url = ''http://other'', new_pinyin = None, new_sortOrder = None,
          new_relatedTagIds = None\<rparr>" "sessionOf ''u''" exampleUserDb "''u''"]
      C5_insert_duplicate_iff [of id 5 examplePublicDb
        "\<lparr>new_name = ''ONE'', new_url = ''http://ONE'', new_pinyin = None, new_sortOrder = None,
          new_relatedTagIds = Some [1]\<rparr>" "sessionOf ''u''" exampleUserDb "''u''"]
      C5_insert_duplicate_iff [of id 5 examplePublicDb
        "\<lparr>new_name = ''other'', new_url = ''http://one'', new_pinyin = None, new_sortOrder = None,
          new_relatedTagIds = None\<rparr>" "sessionOf ''u''" exampleUserDb "''u''"]
      C5_insert_duplicate_iff [of id 5 examplePublicDb
        "\<lparr>new_name = ''one'', new_url = ''http://one'', new_pinyin = None, new_sortOrder = None,
          new_relatedTagIds = None\<rparr>" "sessionOf ''v''" exampleUserDb "''v''"]
    by (simp add: u v rows flds)
qed

subsection \<open>update\<close>

text \<open>
  Without a supplied pinyin both scopes recompute it from the new name; with a supplied
  pinyin the user scope stores the supplied value.
\<close>

lemma update_recomputes_pinyin_without_supplied:
  "PublicBookmark_update getPinyin now examplePublicDb
     \<lparr>patch_id = 1, patch_name = Some ''two'', patch_url = None, patch_pinyin = None,
      patch_sortOrder = None, patch_relatedTagIds = None\<rparr> =
   Inr (examplePublicDb\<lparr>publicBookmarks :=
          [exampleBookmark\<lparr>name := ''two'', pinyin := getPinyin ''two'', updatedAt := Some now\<rparr>]\<rparr>,
        Some (exampleBookmark\<lparr>name := ''two'', pinyin := getPinyin ''two'', updatedAt := Some now\<rparr>)) \<and>
   UserBookmark_update getPinyin now (sessionOf ''u'') exampleUserDb
     \<lparr>patch_id = 1, patch_name = Some ''two'', patch_url = None, patch_pinyin = None,
      patch_sortOrder = None, patch_relatedTagIds = None\<rparr> =
   Inr (exampleUserDb\<lparr>userBookmarks :=
          [exampleUserBookmark\<lparr>name := ''two'', pinyin := getPinyin ''two'', updatedAt := Some now\<rparr>]\<rparr>)"
  by (simp add: PublicBookmark_update_def UserBookmark_update_def UserBookmark_fullSetBookmarkToTag_def
      patch_has_keys_def update_where_def or_keep_def userLimiter_def getAuthedUserId_def sessionOf_def
      exampleUserDb_def exampleUserBookmark_def examplePublicDb_def exampleBookmark_def)

lemma UserBookmark_update_keeps_supplied_pinyin:
  "UserBookmark_update getPinyin now (sessionOf ''u'') exampleUserDb
     \<lparr>patch_id = 1, patch_name = Some ''two'', patch_url = None, patch_pinyin = Some ''custom'',
      patch_sortOrder = None, patch_relatedTagIds = None\<rparr> =
   Inr (exampleUserDb\<lparr>userBookmarks :=
          [exampleUserBookmark\<lparr>name := ''two'', pinyin := ''custom'', updatedAt := Some now\<rparr>]\<rparr>)"
  by (simp add: UserBookmark_update_def UserBookmark_fullSetBookmarkToTag_def patch_has_keys_def
      update_where_def or_keep_def userLimiter_def getAuthedUserId_def sessionOf_def
      exampleUserDb_def exampleUserBookmark_def)

text \<open>
  Claim C7 at the patch \<open>{id: 1, name: two, pinyin: custom}\<close> in the public scope: the
  stored pinyin is \<open>getPinyin two\<close>, not the supplied \<open>custom\<close>.
\<close>

theorem C7_public_update_replaces_supplied_pinyin:
  "PublicBookmark_update getPinyin now examplePublicDb
     \<lparr>patch_id = 1, patch_name = Some ''two'', patch_url = None, patch_pinyin = Some ''custom'',
      patch_sortOrder = None, patch_relatedTagIds = None\<rparr> =
   Inr (examplePublicDb\<lparr>publicBookmarks :=
          [exampleBookmark\<lparr>name := ''two'', pinyin := getPinyin ''two'', updatedAt := Some now\<rparr>]\<rparr>,
        Some (exampleBookmark\<lparr>name := ''two'', pinyin := getPinyin ''two'', updatedAt := Some now\<rparr>))"
  by (simp add: PublicBookmark_update_def patch_has_keys_def update_where_def or_keep_def
      examplePublicDb_def exampleBookmark_def)

subsection \<open>Manual sort reconciler\<close>

lemma fold_max_ge_start: "(a :: int) \<le> fold max xs a"
proof (induction xs arbitrary: a)
  case Nil
  then show ?case by simp
next
  case (Cons x xs)
  have "a \<le> max x a" by simp
  also have "\<dots> \<le> fold max xs (max x a)" by (rule Cons.IH)
  finally show ?case by simp
qed

lemma fold_max_ge_elem: "x \<in> set xs \<Longrightarrow> (x :: int) \<le> fold max xs a"
proof (induction xs arbitrary: a)
  case Nil
  then show ?case by simp
next
  case (Cons y ys)
  show ?case
  proof (cases "x = y")
    case True
    have "x \<le> max y a" using True by simp
    also have "\<dots> \<le> fold max ys (max y a)" by (rule fold_max_ge_start)
    finally show ?thesis by simp
  next
    case False
    then have "x \<in> set ys" using Cons.prems by simp
    then show ?thesis using Cons.IH by simp
  qed
qed

lemma Math_max0_Max: "Math_max0 xs = Max (insert 0 (set xs))"
proof -
  have "fold max xs a = Max (insert a (set xs))" for a :: int
  proof (induction xs arbitrary: a)
    case Nil
    then show ?case by simp
  next
    case (Cons x xs)
    have "fold max (x # xs) a = Max (insert (max x a) (set xs))"
      using Cons.IH by simp
    also have "\<dots> = Max (insert a (set (x # xs)))"
    proof (cases "set xs = {}")
      case True
      then show ?thesis by (simp add: max.commute)
    next
      case False
      then show ?thesis by (simp add: max.assoc max.left_commute max.commute)
    qed
    finally show ?case .
  qed
  then show ?thesis by (simp add: Math_max0_def)
qed

text \<open>
  Claim C9. With no active filter and a non-empty displayed list of \<open>n\<close> bookmarks,
  \<open>onSaveSorting\<close> hands over one pair per bookmark, in display order; the bookmark at
  index \<open>i\<close> gets the order \<open>M + n - i\<close>, where \<open>M\<close> is the greatest \<open>sortOrder\<close> of the
  list, or 0 (a missing order counts as 0). Every new order is above every previous
  order of the list, the new orders are pairwise distinct, and they decrease from top to
  bottom.
\<close>

theorem C9_onSaveSorting_no_filter:
  assumes "bookmarks \<noteq> []" and "\<not> hasFilter selectedTag kw"
  shows "\<exists>orders.
           onSaveSorting selectedTag kw bookmarks = Some orders \<and>
           length orders = length bookmarks \<and>
           Math_max0 (map sortOrder_or_0 bookmarks) = Max (insert 0 (sortOrder_or_0 ` set bookmarks)) \<and>
           (\<forall>i < length bookmarks.
              orders ! i = (id' (bookmarks ! i),
                 Math_max0 (map sortOrder_or_0 bookmarks) + int (length bookmarks) - int i)) \<and>
           (\<forall>i < length bookmarks. \<forall>b \<in> set bookmarks. sortOrder_or_0 b < snd (orders ! i)) \<and>
           distinct (map snd orders) \<and>
           (\<forall>i j. i < j \<and> j < length bookmarks \<longrightarrow> snd (orders ! j) < snd (orders ! i))"
proof -
  let ?n = "length bookmarks"
  let ?M = "Math_max0 (map sortOrder_or_0 bookmarks)"
  let ?orders = "map (\<lambda>(idx, b). (id' b, ?M + int ?n - int idx)) (enumerate 0 bookmarks)"
  have run: "onSaveSorting selectedTag kw bookmarks = Some ?orders"
    using assms by (simp add: onSaveSorting_def Let_def)
  have len: "length ?orders = ?n" by simp
  have nth: "?orders ! i = (id' (bookmarks ! i), ?M + int ?n - int i)" if "i < ?n" for i
    using that by (simp add: nth_enumerate_eq)
  have mx: "?M = Max (insert 0 (sortOrder_or_0 ` set bookmarks))"
    by (simp add: Math_max0_Max)
  have above: "sortOrder_or_0 b < snd (?orders ! i)" if "i < ?n" and "b \<in> set bookmarks" for i b
  proof -
    have "sortOrder_or_0 b \<le> ?M"
      using that(2) by (simp add: Math_max0_def fold_max_ge_elem)
    moreover have "snd (?orders ! i) = ?M + int ?n - int i"
      using nth [OF that(1)] by simp
    ultimately show ?thesis using that(1) by linarith
  qed
  have desc: "snd (?orders ! j) < snd (?orders ! i)" if "i < j" and "j < ?n" for i j
  proof -
    have "i < ?n" using that by simp
    then show ?thesis using nth [of i] nth [OF that(2)] that(1) by simp
  qed
  have dist: "distinct (map snd ?orders)"
  proof (rule iffD2 [OF distinct_conv_nth], intro allI impI)
    fix i j
    assume i: "i < length (map snd ?orders)" and j: "j < length (map snd ?orders)" and ne: "i \<noteq> j"
    then have i': "i < ?n" and j': "j < ?n" by simp_all
    have "snd (?orders ! i) \<noteq> snd (?orders ! j)"
      using nth [OF i'] nth [OF j'] ne by simp
    then show "map snd ?orders ! i \<noteq> map snd ?orders ! j"
      using i' j' by (simp add: nth_enumerate_eq)
  qed
  show ?thesis
    using run len nth mx above desc dist by blast
qed

text \<open>
  The theorem at the displayed list \<open>[2, 1]\<close> with the previous orders 5 and 10: the
  writes are \<open>2 \<mapsto> 12\<close> and \<open>1 \<mapsto> 11\<close>.
\<close>

theorem C9_onSaveSorting_no_filter_witness:
  "[bookmarkWithOrder 2 5, bookmarkWithOrder 1 10] \<noteq> [] \<and> \<not> hasFilter None [] \<and>
   onSaveSorting None [] [bookmarkWithOrder 2 5, bookmarkWithOrder 1 10] = Some [(2, 12), (1, 11)]"
proof -
  have h: "\<not> hasFilter None []" by (simp add: hasFilter_def)
  have m: "Math_max0 (map sortOrder_or_0 [bookmarkWithOrder 2 5, bookmarkWithOrder 1 10]) = 10"
    by (simp add: Math_max0_def sortOrder_or_0_def bookmarkWithOrder_def)
  obtain orders where o: "onSaveSorting None [] [bookmarkWithOrder 2 5, bookmarkWithOrder 1 10] = Some orders"
    and l: "length orders = 2"
    and n: "\<forall>i<2. orders ! i = (id' ([bookmarkWithOrder 2 5, bookmarkWithOrder 1 10] ! i), 10 + 2 - int i)"
    using C9_onSaveSorting_no_filter [of "[bookmarkWithOrder 2 5, bookmarkWithOrder 1 10]" None "[]"] h m by auto
  have "orders ! 0 = (2, 12)" "orders ! 1 = (1, 11)"
    using n by (simp_all add: bookmarkWithOrder_def)
  then have "orders = [(2, 12), (1, 11)]"
    using l by (simp add: list_eq_iff_nth_eq less_Suc_eq numeral_2_eq_2)
  then show ?thesis using o h by simp
qed

subsection \<open>Export serializer\<close>

text \<open>
  The folders of the export, in closed form: one folder per tag, in the order of the
  tags, holding the items whose tag-id list names the tag, a tag without such an item
  being skipped; then the untagged folder, holding the items whose tag-id list is empty,
  when there is one. An item is in the folder of each tag its list names.
\<close>

lemma bucket_pushToTags:
  "bucket (pushToTags names item ids m) t =
     bucket m t @ (if names t = None then [] else replicate (count_list ids t) item)"
proof (induction ids arbitrary: m)
  case Nil
  then show ?case by simp
next
  case (Cons i ids)
  show ?case
  proof (cases "names i = None")
    case True
    then show ?thesis using Cons.IH [of m] by auto
  next
    case False
    let ?m' = "case m i of Some arr \<Rightarrow> m(i \<mapsto> arr @ [item]) | None \<Rightarrow> m(i \<mapsto> [item])"
    have step: "bucket ?m' t = bucket m t @ (if i = t then [item] else [])"
      by (simp add: bucket_def split: option.splits)
    have "bucket (pushToTags names item (i # ids) m) t = bucket (pushToTags names item ids ?m') t"
      by (simp add: False)
    also have "\<dots> = bucket ?m' t @ (if names t = None then [] else replicate (count_list ids t) item)"
      by (rule Cons.IH)
    finally have eq: "bucket (pushToTags names item (i # ids) m) t =
        bucket m t @ (if i = t then [item] else []) @
        (if names t = None then [] else replicate (count_list ids t) item)"
      by (simp add: step)
    show ?thesis
    proof (cases "i = t")
      case True
      then have nt: "names t \<noteq> None" using False by simp
      show ?thesis
        by (subst eq) (simp add: True nt replicate_app_Cons_same del: not_None_eq)
    next
      case ne: False
      show ?thesis
        by (subst eq) (simp add: ne)
    qed
  qed
qed

lemma groupBookmarks_char:
  "bucket (fst (groupBookmarks names bs (m, u))) t =
     bucket m t @ (if names t = None then [] else itemsOfTag t bs) \<and>
   snd (groupBookmarks names bs (m, u)) = u @ untaggedItems bs"
proof (induction bs arbitrary: m u)
  case Nil
  then show ?case by (simp add: itemsOfTag_def untaggedItems_def)
next
  case (Cons b bs)
  obtain item ids where b: "b = (item, ids)" by (cases b)
  show ?case
  proof (cases "ids = []")
    case True
    then show ?thesis
      using Cons.IH [of m "u @ [item]"] by (simp add: b itemsOfTag_def untaggedItems_def)
  next
    case False
    then show ?thesis
      using Cons.IH [of "pushToTags names item ids m" u]
      by (simp add: b bucket_pushToTags itemsOfTag_def untaggedItems_def)
  qed
qed

lemma tagIdToName_known: "t \<in> set tags \<Longrightarrow> tagIdToName tags (tag_id t) \<noteq> None"
  by (simp add: tagIdToName_def map_of_eq_None_iff image_iff) (metis)

lemma tagFolders_bucket:
  "tagFolders tags m =
     concat (map (\<lambda>t. if bucket m (tag_id t) = [] then []
                       else [\<lparr>folder_name = tag_name t, folder_bookmarks = bucket m (tag_id t)\<rparr>]) tags)"
  unfolding tagFolders_def bucket_def
  by (rule arg_cong [where f = concat], rule map_cong) (auto split: option.splits)

lemma exportFolders_char:
  "exportFolders tags bs =
     concat (map (folderOfTag bs) tags) @
     (if untaggedItems bs = [] then []
      else [\<lparr>folder_name = untaggedName, folder_bookmarks = untaggedItems bs\<rparr>])"
proof -
  let ?st = "groupBookmarks (tagIdToName tags) bs (Map.empty, [])"
  have un: "snd ?st = untaggedItems bs"
    using groupBookmarks_char [of "tagIdToName tags" bs Map.empty "[]"] by simp
  have bk: "bucket (fst ?st) (tag_id t) = itemsOfTag (tag_id t) bs" if "t \<in> set tags" for t
    using groupBookmarks_char [of "tagIdToName tags" bs Map.empty "[]" "tag_id t"]
      tagIdToName_known [OF that]
    by (simp add: bucket_def)
  have "tagFolders tags (fst ?st) = concat (map (folderOfTag bs) tags)"
    unfolding tagFolders_bucket
    by (rule arg_cong [where f = concat], rule map_cong) (simp_all add: bk folderOfTag_def)
  then show ?thesis
    by (simp add: exportFolders_def Let_def un)
qed



text \<open>
  Claim C4 at a store whose only bookmark is related to the tag ids 1 and 2 while the
  fetched tag set is empty: the bookmark's tag-id list is not empty, so it is not put
  into the untagged bucket, and no id of it is a known tag, so it is put into no tag
  bucket either. The export has no folder at all.
\<close>

theorem C4_bookmark_with_only_dangling_tags_is_dropped:
  "relatedTagIds (publicBookmarkToTag danglingPublicDb) 1 = [1, 2] \<and>
   publicTags danglingPublicDb = [] \<and>
   PublicBookmark_exportList danglingPublicDb = [(toItem exampleBookmark, [1, 2])] \<and>
   PublicBookmark_exportFolders danglingPublicDb = []"
  by (simp add: PublicBookmark_exportFolders_def PublicBookmark_exportList_def exportFolders_def
      tagFolders_def tagIdToName_def relatedTagIds_def orderBy_manual_def
      danglingPublicDb_def examplePublicDb_def exampleBookmark_def toItem_def)

text \<open>
  The clock enters the document through its seconds only: two clocks whose readings
  fall in the same seconds give the same lines.
\<close>

lemma toUnixSeconds_same_seconds:
  assumes "\<forall>k. clock1 k div 1000 = clock2 k div 1000"
  shows "toUnixSeconds js clock1 k v = toUnixSeconds js clock2 k v"
  using assms by (cases v) (simp_all add: toUnixSeconds_def split: option.splits)

lemma bookmarkLine_same_seconds:
  assumes "\<forall>k. clock1 k div 1000 = clock2 k div 1000"
  shows "bookmarkLine js clock1 k b = bookmarkLine js clock2 k b"
  by (simp add: bookmarkLine_def addDate_def toUnixSeconds_same_seconds [OF assms])

lemma bookmarkLines_same_seconds:
  assumes "\<forall>k. clock1 k div 1000 = clock2 k div 1000"
  shows "bookmarkLines js clock1 k bs = bookmarkLines js clock2 k bs"
  by (induction bs arbitrary: k) (simp_all add: Let_def bookmarkLine_same_seconds [OF assms])

lemma folderLines_same_seconds:
  assumes "\<forall>k. clock1 k div 1000 = clock2 k div 1000"
  shows "folderLines js clock1 k fs = folderLines js clock2 k fs"
proof (induction fs arbitrary: k)
  case Nil
  then show ?case by simp
next
  case (Cons f fs)
  have z: "clock1 0 div 1000 = clock2 0 div 1000" using assms by simp
  show ?case
    by (simp add: Let_def bookmarkLines_same_seconds [OF assms] Cons.IH z)
qed

lemma buildBookmarkHtml_same_seconds:
  assumes "\<forall>k. clock1 k div 1000 = clock2 k div 1000"
  shows "buildBookmarkHtml js clock1 title fname folders = buildBookmarkHtml js clock2 title fname folders"
proof -
  have z: "clock1 0 div 1000 = clock2 0 div 1000" using assms by simp
  show ?thesis
    by (simp only: buildBookmarkHtml_def headerLines_def folderLines_same_seconds [OF assms] z)
qed

text \<open>
  The store's answer enters the folders through the order of its rows only: the order in
  which the related tag ids of a row come is irrelevant, and when no two rows have the
  same sort key there is only one order of the rows. The rows in the order of
  \<open>orderBy_manual\<close>, each with its related tag ids in storage order, are one answer the
  store may give: the one \<open>PublicBookmark_exportList\<close> and \<open>UserBookmark_exportList\<close>
  are made of.
\<close>

lemma count_list_mset: "mset xs = mset ys \<Longrightarrow> count_list xs t = count_list ys t"
  by (metis count_mset)

lemma itemsOfTag_tag_order:
  assumes "list_all2 (\<lambda>p q. fst p = fst q \<and> mset (snd p) = mset (snd q)) bs1 bs2"
  shows "itemsOfTag t bs1 = itemsOfTag t bs2 \<and> untaggedItems bs1 = untaggedItems bs2"
  using assms
proof (induction bs1 bs2 rule: list_all2_induct)
  case Nil
  then show ?case by (simp add: itemsOfTag_def untaggedItems_def)
next
  case (Cons p ps q qs)
  then have m: "mset (snd p) = mset (snd q)" and f: "fst p = fst q"
    by simp_all
  have c: "count_list (snd p) t = count_list (snd q) t"
    using m by (rule count_list_mset)
  have "length (snd p) = length (snd q)"
    using m by (rule mset_eq_length)
  then have e: "(snd p = []) = (snd q = [])"
    by auto
  show ?case using Cons.IH c e f
    by (cases p; cases q) (auto simp: itemsOfTag_def untaggedItems_def)
qed


lemma exportFolders_tag_order:
  assumes "list_all2 (\<lambda>p q. fst p = fst q \<and> mset (snd p) = mset (snd q)) bs1 bs2"
  shows "exportFolders tags bs1 = exportFolders tags bs2"
proof -
  have i: "itemsOfTag t bs1 = itemsOfTag t bs2" for t
    using itemsOfTag_tag_order [OF assms] by simp
  have u: "untaggedItems bs1 = untaggedItems bs2"
    using itemsOfTag_tag_order [OF assms] by simp
  have "folderOfTag bs1 = (folderOfTag bs2 :: 'a Tag_scheme \<Rightarrow> BookmarkHtmlFolder list)"
    by (rule ext) (simp add: folderOfTag_def i)
  then show ?thesis
    by (simp add: exportFolders_char u)
qed

lemma fetchedRows_same_rows:
  assumes f1: "fetchedRows tbl j f1" and f2: "fetchedRows tbl j f2"
    and nt: "distinct (map manualKey tbl)"
  shows "map fst f1 = map fst f2"
proof -
  let ?r1 = "map fst f1" and ?r2 = "map fst f2"
  have m1: "mset ?r1 = mset tbl" and m2: "mset ?r2 = mset tbl"
    and s1: "sorted (map manualKey ?r1)" and s2: "sorted (map manualKey ?r2)"
    using f1 f2 by (simp_all add: fetchedRows_def)
  have k1: "mset (map manualKey ?r1) = mset (map manualKey tbl)"
    and k2: "mset (map manualKey ?r2) = mset (map manualKey tbl)"
    using m1 m2 by (metis mset_map)+
  have d1: "distinct (map manualKey ?r1)" and d2: "distinct (map manualKey ?r2)"
    using k1 k2 nt mset_eq_imp_distinct_iff by blast+
  have "set (map manualKey ?r1) = set (map manualKey ?r2)"
    using k1 k2 by (metis mset_eq_setD)
  then have keys: "map manualKey ?r1 = map manualKey ?r2"
    using s1 s2 d1 d2 by (metis sorted_distinct_set_unique)
  have "set ?r1 = set tbl" "set ?r2 = set tbl"
    using m1 m2 by (metis mset_eq_setD)+
  moreover have "inj_on manualKey (set tbl)"
    using nt by (simp add: distinct_map)
  ultimately have "inj_on manualKey (set ?r1 \<union> set ?r2)"
    by simp
  then show ?thesis
    using keys by (rule iffD1 [OF inj_on_map_eq_map])
qed

lemma fetchedRows_same_folders:
  assumes f1: "fetchedRows tbl j f1" and f2: "fetchedRows tbl j f2"
    and rows: "map fst f1 = map fst f2"
  shows "exportFolders tags (toItems f1) = exportFolders tags (toItems f2)"
proof (rule exportFolders_tag_order)
  have len: "length f1 = length f2"
    using rows by (metis length_map)
  have "fst (toItems f1 ! n) = fst (toItems f2 ! n) \<and>
        mset (snd (toItems f1 ! n)) = mset (snd (toItems f2 ! n))" if n: "n < length f1" for n
  proof -
    have r: "fst (f1 ! n) = fst (f2 ! n)"
      using rows n len by (metis nth_map)
    have "f1 ! n \<in> set f1" "f2 ! n \<in> set f2"
      using n len by simp_all
    then have "mset (snd (f1 ! n)) = mset (relatedTagIds j (id' (fst (f1 ! n))))"
      "mset (snd (f2 ! n)) = mset (relatedTagIds j (id' (fst (f2 ! n))))"
      using f1 f2 by (simp_all add: fetchedRows_def list_all_iff)
    then show ?thesis
      using r n len by (simp add: toItems_def)
  qed
  then show "list_all2 (\<lambda>p q. fst p = fst q \<and> mset (snd p) = mset (snd q)) (toItems f1) (toItems f2)"
    using len by (simp add: list_all2_conv_all_nth toItems_def)
qed

lemma fetchedRows_stable_sort:
  "fetchedRows tbl j (map (\<lambda>b. (b, relatedTagIds j (id' b))) (sort_key manualKey tbl))"
  by (simp add: fetchedRows_def comp_def list_all_iff)

lemma orderBy_manual_fetched:
  "fetchedRows tbl j (map (\<lambda>b. (b, relatedTagIds j (id' b))) (orderBy_manual tbl))"
proof -
  have "orderBy_manual tbl = sort_key manualKey tbl"
    by (simp add: orderBy_manual_def manualKey_def [abs_def])
  then show ?thesis
    by (simp add: fetchedRows_stable_sort)
qed

lemma PublicBookmark_exportList_fetched:
  "PublicBookmark_fetched db
     (map (\<lambda>b. (b, relatedTagIds (publicBookmarkToTag db) (id' b)))
        (orderBy_manual (publicBookmarks db))) \<and>
   toItems (map (\<lambda>b. (b, relatedTagIds (publicBookmarkToTag db) (id' b)))
              (orderBy_manual (publicBookmarks db))) = PublicBookmark_exportList db"
  by (simp add: PublicBookmark_fetched_def orderBy_manual_fetched toItems_def
      PublicBookmark_exportList_def comp_def)

lemma UserBookmark_exportList_fetched:
  "UserBookmark_fetched db uid
     (map (\<lambda>b. (b, relatedTagIds (userBookmarkToTag db) (id' b)))
        (orderBy_manual (filter (userLimiter uid None) (userBookmarks db)))) \<and>
   toItems (map (\<lambda>b. (b, relatedTagIds (userBookmarkToTag db) (id' b)))
              (orderBy_manual (filter (userLimiter uid None) (userBookmarks db)))) =
   UserBookmark_exportList db uid"
  by (simp add: UserBookmark_fetched_def orderBy_manual_fetched toItems_def
      UserBookmark_exportList_def comp_def)

text \<open>
  The decimal text of an integer determines the integer, and holds no double quote. The
  sixth line of every document holds the seconds of the first reading of the clock between
  the same prefix and a double quote, so two documents made at different seconds differ.
\<close>

lemma digit_char_inj:
  "a < 10 \<Longrightarrow> b < 10 \<Longrightarrow> ''0123456789'' ! a = ''0123456789'' ! b \<Longrightarrow> a = b"
proof -
  assume a: "a < 10" and b: "b < 10" and e: "''0123456789'' ! a = ''0123456789'' ! b"
  have d: "distinct ''0123456789''" by simp
  have "a < length ''0123456789''" "b < length ''0123456789''" using a b by simp_all
  then show "a = b" using d e by (simp only: nth_eq_iff_index_eq)
qed

lemma digits_chars: "set (digits n) \<subseteq> set ''0123456789''"
proof (induction n rule: digits.induct)
  case (1 n)
  have m: "n mod 10 < length ''0123456789''" by simp
  show ?case
  proof (cases "n < 10")
    case True
    then have "n < length ''0123456789''" by simp
    then have "''0123456789'' ! n \<in> set ''0123456789''" by (rule nth_mem)
    then show ?thesis using True by (subst digits.simps) simp
  next
    case False
    have "''0123456789'' ! (n mod 10) \<in> set ''0123456789''" using m by (rule nth_mem)
    then show ?thesis using False "1.IH" by (subst digits.simps) simp
  qed
qed

lemma digits_not_Nil: "digits n \<noteq> []"
  by (subst digits.simps) simp

lemma digits_inj: "digits n = digits m \<Longrightarrow> n = m"
proof (induction n arbitrary: m rule: digits.induct)
  case (1 n)
  have dn: "digits n = (if n < 10 then [''0123456789'' ! n]
      else digits (n div 10) @ [''0123456789'' ! (n mod 10)])"
    by (rule digits.simps)
  have dm: "digits m = (if m < 10 then [''0123456789'' ! m]
      else digits (m div 10) @ [''0123456789'' ! (m mod 10)])"
    by (rule digits.simps)
  show ?case
  proof (cases "n < 10")
    case n: True
    show ?thesis
    proof (cases "m < 10")
      case True
      then have "''0123456789'' ! n = ''0123456789'' ! m"
        using n "1.prems" dn dm by simp
      then show ?thesis using n True by (rule digit_char_inj [rotated 2])
    next
      case False
      then have "[''0123456789'' ! n] = digits (m div 10) @ [''0123456789'' ! (m mod 10)]"
        using n "1.prems" dn dm by simp
      then have "digits (m div 10) = []" by simp
      then show ?thesis by (simp add: digits_not_Nil)
    qed
  next
    case n: False
    show ?thesis
    proof (cases "m < 10")
      case True
      then have "digits (n div 10) @ [''0123456789'' ! (n mod 10)] = [''0123456789'' ! m]"
        using n "1.prems" dn dm by simp
      then show ?thesis by (simp add: digits_not_Nil)
    next
      case False
      then have e: "digits (n div 10) = digits (m div 10)"
        and l: "''0123456789'' ! (n mod 10) = ''0123456789'' ! (m mod 10)"
        using n "1.prems" dn dm by simp_all
      have "n div 10 = m div 10" using "1.IH" [OF n e] .
      moreover have "n mod 10 = m mod 10"
        by (rule digit_char_inj [OF _ _ l]) simp_all
      ultimately show ?thesis by (metis div_mult_mod_eq)
    qed
  qed
qed

lemma String_of_int_chars_gen:
  "set (digits (nat (- i))) \<subseteq> S \<Longrightarrow> set (digits (nat i)) \<subseteq> S
    \<Longrightarrow> set (String_of_int i) \<subseteq> insert (CHR ''-'') S"
  by (auto simp: String_of_int_def)

lemma String_of_int_chars: "set (String_of_int i) \<subseteq> insert (CHR ''-'') (set ''0123456789'')"
  by (rule String_of_int_chars_gen) (rule digits_chars)+

lemma notin_subset: "c \<notin> S \<Longrightarrow> A \<subseteq> S \<Longrightarrow> c \<notin> A"
  by auto

lemma minus_notin_digits: "CHR ''-'' \<notin> set (digits n)"
proof -
  have "CHR ''-'' \<notin> set ''0123456789''" by simp
  then show ?thesis using digits_chars by (rule notin_subset)
qed

lemma quote_notin_String_of_int: "CHR 0x22 \<notin> set (String_of_int i)"
proof -
  have "CHR 0x22 \<notin> insert (CHR ''-'') (set ''0123456789'')" by simp
  then show ?thesis using String_of_int_chars by (rule notin_subset)
qed

lemma String_of_int_inj: "String_of_int a = String_of_int b \<Longrightarrow> a = b"
proof -
  assume e: "String_of_int a = String_of_int b"
  have no_minus: "CHR ''-'' # xs \<noteq> digits n" for n xs
  proof
    assume "CHR ''-'' # xs = digits n"
    then have "set (digits n) = set (CHR ''-'' # xs)" by (rule arg_cong [OF sym])
    then have "CHR ''-'' \<in> set (digits n)" by (simp only: list.set insertI1)
    then show False using minus_notin_digits by (rule notE [rotated])
  qed
  consider "a < 0" "b < 0" | "a < 0" "0 \<le> b" | "0 \<le> a" "b < 0" | "0 \<le> a" "0 \<le> b"
    by linarith
  then show "a = b"
  proof cases
    case 1
    then have "digits (nat (- a)) = digits (nat (- b))" using e by (simp add: String_of_int_def)
    then have "nat (- a) = nat (- b)" by (rule digits_inj)
    then show ?thesis using 1 by simp
  next
    case 2
    then have "CHR ''-'' # digits (nat (- a)) = digits (nat b)" using e by (simp add: String_of_int_def)
    then show ?thesis using no_minus by (rule notE [rotated])
  next
    case 3
    then have "CHR ''-'' # digits (nat (- b)) = digits (nat a)" using e by (simp add: String_of_int_def)
    then show ?thesis using no_minus by (rule notE [rotated])
  next
    case 4
    then have "digits (nat a) = digits (nat b)" using e by (simp add: String_of_int_def)
    then have "nat a = nat b" by (rule digits_inj)
    then show ?thesis using 4 by simp
  qed
qed

lemma append_sep_eq:
  "xs @ c # r1 = ys @ c # r2 \<Longrightarrow> c \<notin> set xs \<Longrightarrow> c \<notin> set ys \<Longrightarrow> xs = ys"
proof (induction xs arbitrary: ys)
  case Nil
  then show ?case by (cases ys) auto
next
  case (Cons x xs)
  then show ?case by (cases ys) auto
qed

lemma join_lines_sixth:
  "join_lines ([a, b, c, d, e, p @ S @ q # t] @ rest) =
     (a @ CHR 0x0A # b @ CHR 0x0A # c @ CHR 0x0A # d @ CHR 0x0A # e @ CHR 0x0A # p) @ S @ q #
     (t @ concat (map (\<lambda>x. CHR 0x0A # x) rest))"
  by (simp add: join_lines_def)

lemma headerLines_shape:
  \<open>headerLines clock title fname @ rest =
     [''<!DOCTYPE NETSCAPE-Bookmark-file-1>'',
      ''<META HTTP-EQUIV="Content-Type" CONTENT="text/html; charset=UTF-8">'',
      ''<TITLE>'' @ escapeHtml title @ ''</TITLE>'',
      ''<H1>'' @ escapeHtml title @ ''</H1>'',
      ''<DL><p>'',
      ''  <DT><H3 ADD_DATE="'' @ String_of_int (clock 0 div 1000) @ CHR 0x22 #
        (''>'' @ escapeHtml fname @ ''</H3>'')] @ (''  <DL><p>'' # rest)\<close>
  by (simp only: headerLines_def append_Cons append_Nil)

lemma two_docs_differ:
  assumes "d1 = pre @ String_of_int s1 @ CHR 0x22 # r1"
    and "d2 = pre @ String_of_int s2 @ CHR 0x22 # r2"
    and "s1 \<noteq> s2"
  shows "d1 \<noteq> d2"
proof
  assume "d1 = d2"
  then have "String_of_int s1 @ CHR 0x22 # r1 = String_of_int s2 @ CHR 0x22 # r2"
    using assms(1,2) by (simp only: same_append_eq)
  then have "String_of_int s1 = String_of_int s2"
    using quote_notin_String_of_int quote_notin_String_of_int by (rule append_sep_eq)
  then have "s1 = s2" by (rule String_of_int_inj)
  then show False using assms(3) by (rule notE [rotated])
qed

lemma buildBookmarkHtml_seconds_differ:
  assumes "clock1 0 div 1000 \<noteq> clock2 0 div 1000"
  shows "buildBookmarkHtml js1 clock1 title fname fs1 \<noteq> buildBookmarkHtml js2 clock2 title fname fs2"
  unfolding buildBookmarkHtml_def headerLines_shape join_lines_sixth
  using refl refl assms by (rule two_docs_differ)









lemma fetched_same_folders:
  assumes "fetchedRows tbl j f1" and "fetchedRows tbl j f2"
    and "distinct (map manualKey tbl) \<or> map fst f1 = map fst f2"
  shows "exportFolders tags (toItems f1) = exportFolders tags (toItems f2)"
proof -
  have "map fst f1 = map fst f2"
    using assms fetchedRows_same_rows by blast
  with assms(1,2) show ?thesis by (rule fetchedRows_same_folders)
qed

lemma Public_exportHtml_same:
  assumes "PublicBookmark_fetched db fetched" and "PublicBookmark_fetched db fetched'"
    and "distinct (map manualKey (publicBookmarks db)) \<or> map fst fetched = map fst fetched'"
    and "\<forall>k. clock k div 1000 = clock' k div 1000"
  shows "PublicBookmark_exportHtml js clock db fetched = PublicBookmark_exportHtml js clock' db fetched'"
proof -
  have "exportFolders (publicTags db) (toItems fetched) = exportFolders (publicTags db) (toItems fetched')"
    using assms(1,2,3) unfolding PublicBookmark_fetched_def by (rule fetched_same_folders)
  then show ?thesis
    by (simp add: PublicBookmark_exportHtml_def buildBookmarkHtml_same_seconds [OF assms(4)])
qed

lemma User_exportHtml_same:
  assumes "UserBookmark_fetched db uid fetched" and "UserBookmark_fetched db uid fetched'"
    and "distinct (map manualKey (filter (userLimiter uid None) (userBookmarks db))) \<or>
         map fst fetched = map fst fetched'"
    and "\<forall>k. clock k div 1000 = clock' k div 1000"
  shows "UserBookmark_exportHtml js clock session db fetched =
         UserBookmark_exportHtml js clock' session db fetched'"
proof -
  have "exportFolders tags (toItems fetched) = exportFolders tags (toItems fetched')"
    for tags :: "UserTag list"
    using assms(1,2,3) unfolding UserBookmark_fetched_def by (rule fetched_same_folders)
  then show ?thesis
    by (simp add: UserBookmark_exportHtml_def buildBookmarkHtml_same_seconds [OF assms(4)]
        split: sum.splits)
qed

lemma Public_exportHtml_differ:
  assumes "clock 0 div 1000 \<noteq> clock' 0 div 1000"
  shows "PublicBookmark_exportHtml js clock db fetched \<noteq> PublicBookmark_exportHtml js clock' db fetched'"
  unfolding PublicBookmark_exportHtml_def using assms by (rule buildBookmarkHtml_seconds_differ)

lemma User_exportHtml_differ:
  assumes "getAuthedUserId session (users db) = Inr uid"
    and "clock 0 div 1000 \<noteq> clock' 0 div 1000"
  shows "UserBookmark_exportHtml js clock session db fetched \<noteq>
         UserBookmark_exportHtml js clock' session db fetched'"
  using assms(2) buildBookmarkHtml_seconds_differ [of clock clock']
  by (simp add: UserBookmark_exportHtml_def assms(1))

text \<open>
  Claim C3, as amended. For both scopes (the user scope under a valid session): two calls
  of \<^verbatim>\<open>exportHtml\<close> on the same bookmark and tag fixtures, in which no two exported
  bookmarks have the same \<open>sortOrder\<close> and \<open>updatedAt\<close> (or which the store returns in
  the same order of rows), whatever the order in which the store returns the related tag
  ids of each bookmark, produce the same document when the corresponding readings of
  \<^verbatim>\<open>Date.now()\<close> in the two calls fall in the same seconds; and two calls whose first
  readings of \<^verbatim>\<open>Date.now()\<close> fall in different seconds produce different documents,
  whatever the store returns.
\<close>

theorem C3_exportHtml_clock_seconds:
  "(PublicBookmark_fetched db fetched \<and> PublicBookmark_fetched db fetched' \<and>
      (distinct (map manualKey (publicBookmarks db)) \<or> map fst fetched = map fst fetched') \<and>
      (\<forall>k. clock k div 1000 = clock' k div 1000) \<longrightarrow>
    PublicBookmark_exportHtml js clock db fetched = PublicBookmark_exportHtml js clock' db fetched') \<and>
   (clock 0 div 1000 \<noteq> clock' 0 div 1000 \<longrightarrow>
    PublicBookmark_exportHtml js clock db fetched \<noteq> PublicBookmark_exportHtml js clock' db fetched') \<and>
   (UserBookmark_fetched udb uid ufetched \<and> UserBookmark_fetched udb uid ufetched' \<and>
      (distinct (map manualKey (filter (userLimiter uid None) (userBookmarks udb))) \<or>
       map fst ufetched = map fst ufetched') \<and>
      (\<forall>k. clock k div 1000 = clock' k div 1000) \<longrightarrow>
    UserBookmark_exportHtml js clock session udb ufetched =
    UserBookmark_exportHtml js clock' session udb ufetched') \<and>
   (getAuthedUserId session (users udb) = Inr uid \<and> clock 0 div 1000 \<noteq> clock' 0 div 1000 \<longrightarrow>
    UserBookmark_exportHtml js clock session udb ufetched \<noteq>
    UserBookmark_exportHtml js clock' session udb ufetched')"
  using Public_exportHtml_same [of db fetched fetched' clock clock' js]
    Public_exportHtml_differ [of clock clock' js db fetched fetched']
    User_exportHtml_same [of udb uid ufetched ufetched' clock clock' js session]
    User_exportHtml_differ [of session udb uid clock clock' js ufetched ufetched']
  by blast

theorem C3_exportHtml_clock_seconds_witness:
  "PublicBookmark_fetched examplePublicDb [(exampleBookmark, [1, 2])] \<and>
   PublicBookmark_fetched examplePublicDb [(exampleBookmark, [2, 1])] \<and>
   distinct (map manualKey (publicBookmarks examplePublicDb)) \<and>
   (\<forall>k. clockAt 1500 k div 1000 = clockAt 1999 k div 1000) \<and>
   PublicBookmark_exportHtml exampleRuntime (clockAt 1500) examplePublicDb [(exampleBookmark, [1, 2])] =
   PublicBookmark_exportHtml exampleRuntime (clockAt 1999) examplePublicDb [(exampleBookmark, [2, 1])] \<and>
   clockAt 1500 0 div 1000 \<noteq> clockAt 2000 0 div 1000 \<and>
   PublicBookmark_exportHtml exampleRuntime (clockAt 1500) examplePublicDb [(exampleBookmark, [1, 2])] \<noteq>
   PublicBookmark_exportHtml exampleRuntime (clockAt 2000) examplePublicDb [(exampleBookmark, [2, 1])] \<and>
   UserBookmark_fetched exampleUserDb ''u'' [(exampleUserBookmark, [1, 2])] \<and>
   UserBookmark_fetched exampleUserDb ''u'' [(exampleUserBookmark, [2, 1])] \<and>
   getAuthedUserId (sessionOf ''u'') (users exampleUserDb) = Inr ''u'' \<and>
   distinct (map manualKey (filter (userLimiter ''u'' None) (userBookmarks exampleUserDb))) \<and>
   UserBookmark_exportHtml exampleRuntime (clockAt 1500) (sessionOf ''u'') exampleUserDb
     [(exampleUserBookmark, [1, 2])] =
   UserBookmark_exportHtml exampleRuntime (clockAt 1999) (sessionOf ''u'') exampleUserDb
     [(exampleUserBookmark, [2, 1])] \<and>
   UserBookmark_exportHtml exampleRuntime (clockAt 1500) (sessionOf ''u'') exampleUserDb
     [(exampleUserBookmark, [1, 2])] \<noteq>
   UserBookmark_exportHtml exampleRuntime (clockAt 2000) (sessionOf ''u'') exampleUserDb
     [(exampleUserBookmark, [2, 1])]"
proof -
  have p: "PublicBookmark_fetched examplePublicDb [(exampleBookmark, [1, 2])]"
    "PublicBookmark_fetched examplePublicDb [(exampleBookmark, [2, 1])]"
    by (simp_all add: PublicBookmark_fetched_def fetchedRows_def examplePublicDb_def
        exampleBookmark_def relatedTagIds_def)
  have d: "distinct (map manualKey (publicBookmarks examplePublicDb))"
    by (simp add: examplePublicDb_def)
  have u: "UserBookmark_fetched exampleUserDb ''u'' [(exampleUserBookmark, [1, 2])]"
    "UserBookmark_fetched exampleUserDb ''u'' [(exampleUserBookmark, [2, 1])]"
    by (simp_all add: UserBookmark_fetched_def fetchedRows_def exampleUserDb_def
        exampleUserBookmark_def relatedTagIds_def userLimiter_def)
  have s: "getAuthedUserId (sessionOf ''u'') (users exampleUserDb) = Inr ''u''"
    by (simp add: getAuthedUserId_def sessionOf_def exampleUserDb_def)
  have ud: "distinct (map manualKey (filter (userLimiter ''u'' None) (userBookmarks exampleUserDb)))"
    by (simp add: exampleUserDb_def)
  have c: "\<forall>k. clockAt 1500 k div 1000 = clockAt 1999 k div 1000"
    "clockAt 1500 0 div 1000 \<noteq> clockAt 2000 0 div 1000"
    by (simp_all add: clockAt_def)
  show ?thesis
    using p d u s ud c
      C3_exportHtml_clock_seconds [where db = examplePublicDb
        and fetched = "[(exampleBookmark, [1, 2])]" and fetched' = "[(exampleBookmark, [2, 1])]"
        and clock = "clockAt 1500" and clock' = "clockAt 1999" and js = exampleRuntime
        and udb = exampleUserDb and uid = "''u''" and session = "sessionOf ''u''"
        and ufetched = "[(exampleUserBookmark, [1, 2])]"
        and ufetched' = "[(exampleUserBookmark, [2, 1])]"]
      C3_exportHtml_clock_seconds [where db = examplePublicDb
        and fetched = "[(exampleBookmark, [1, 2])]" and fetched' = "[(exampleBookmark, [2, 1])]"
        and clock = "clockAt 1500" and clock' = "clockAt 2000" and js = exampleRuntime
        and udb = exampleUserDb and uid = "''u''" and session = "sessionOf ''u''"
        and ufetched = "[(exampleUserBookmark, [1, 2])]"
        and ufetched' = "[(exampleUserBookmark, [2, 1])]"]
    by blast
qed

text \<open>
  Claim C3 as stated fails: on the same fixtures and the same answer of the store, a call
  at the clock reading 0 and a call at the clock reading 1000 write \<^verbatim>\<open>ADD_DATE="0"\<close>
  and \<^verbatim>\<open>ADD_DATE="1"\<close> into the sixth line, and the two documents differ.
\<close>

theorem C3_counterexample:
  \<open>PublicBookmark_fetched examplePublicDb [(exampleBookmark, [1, 2])] \<and>
   headerLines (clockAt 0) ''bmm public bookmarks'' ''bmm-export'' ! 5 =
     ''  <DT><H3 ADD_DATE="0">bmm-export</H3>'' \<and>
   headerLines (clockAt 1000) ''bmm public bookmarks'' ''bmm-export'' ! 5 =
     ''  <DT><H3 ADD_DATE="1">bmm-export</H3>'' \<and>
   PublicBookmark_exportHtml exampleRuntime (clockAt 0) examplePublicDb [(exampleBookmark, [1, 2])] \<noteq>
   PublicBookmark_exportHtml exampleRuntime (clockAt 1000) examplePublicDb [(exampleBookmark, [1, 2])]\<close>
proof -
  have p: "PublicBookmark_fetched examplePublicDb [(exampleBookmark, [1, 2])]"
    by (simp add: PublicBookmark_fetched_def fetchedRows_def examplePublicDb_def
        exampleBookmark_def relatedTagIds_def)
  have h: \<open>headerLines (clockAt 0) ''bmm public bookmarks'' ''bmm-export'' ! 5 =
     ''  <DT><H3 ADD_DATE="0">bmm-export</H3>''\<close>
    \<open>headerLines (clockAt 1000) ''bmm public bookmarks'' ''bmm-export'' ! 5 =
     ''  <DT><H3 ADD_DATE="1">bmm-export</H3>''\<close>
    by (simp_all add: headerLines_def clockAt_def String_of_int_def digits.simps escapeHtml_def
        replaceAll_def)
  have "clockAt 0 0 div 1000 \<noteq> clockAt 1000 0 div 1000"
    by (simp add: clockAt_def)
  then have "PublicBookmark_exportHtml exampleRuntime (clockAt 0) examplePublicDb [(exampleBookmark, [1, 2])] \<noteq>
   PublicBookmark_exportHtml exampleRuntime (clockAt 1000) examplePublicDb [(exampleBookmark, [1, 2])]"
    by (rule Public_exportHtml_differ)
  with p h show ?thesis by (intro conjI)
qed



end
